theory Spec2Isabelle
  imports Complex_Main "HOL-Library.AList"
begin

section \<open>Colour utilities\<close>

text \<open>
  \<open>Number.prototype.toString(16)\<close> on an integer: lower-case digits, most significant
  first, no leading zero, a minus sign for a negative number.
\<close>

definition hexDigitChar :: "nat \<Rightarrow> char" where
  "hexDigitChar d = ''0123456789abcdef'' ! (d mod 16)"

fun toString16_nat :: "nat \<Rightarrow> string" where
  "toString16_nat n =
     (if n < 16 then [hexDigitChar n]
      else toString16_nat (n div 16) @ [hexDigitChar (n mod 16)])"

definition toString16 :: "int \<Rightarrow> string" where
  "toString16 n =
     (if n < 0 then CHR ''-'' # toString16_nat (nat (- n)) else toString16_nat (nat n))"

definition toUpperChar :: "char \<Rightarrow> char" where
  "toUpperChar c =
     (case map_of (zip ''abcdefghijklmnopqrstuvwxyz'' ''ABCDEFGHIJKLMNOPQRSTUVWXYZ'') c of
        None \<Rightarrow> c
      | Some u \<Rightarrow> u)"

definition toUpperCase :: "string \<Rightarrow> string" where
  "toUpperCase s = map toUpperChar s"

definition padStart :: "nat \<Rightarrow> char \<Rightarrow> string \<Rightarrow> string" where
  "padStart n c s = replicate (n - length s) c @ s"

definition numberToHex :: "int \<Rightarrow> string" where
  "numberToHex colorNumber = CHR ''#'' # padStart 6 CHR ''0'' (toUpperCase (toString16 colorNumber))"

fun replaceFirst :: "char \<Rightarrow> string \<Rightarrow> string" where
  "replaceFirst c [] = []"
| "replaceFirst c (x # xs) = (if x = c then xs else x # replaceFirst c xs)"

definition hexDigitValue :: "char \<Rightarrow> nat option" where
  "hexDigitValue c =
     (let k = (of_char c :: nat) in
      if 48 \<le> k \<and> k \<le> 57 then Some (k - 48)
      else if 97 \<le> k \<and> k \<le> 102 then Some (k - 87)
      else if 65 \<le> k \<and> k \<le> 70 then Some (k - 55)
      else None)"

fun parseDigits :: "nat \<Rightarrow> string \<Rightarrow> nat" where
  "parseDigits acc [] = acc"
| "parseDigits acc (c # cs) =
     (case hexDigitValue c of None \<Rightarrow> acc | Some d \<Rightarrow> parseDigits (acc * 16 + d) cs)"

definition isWhiteSpace :: "char \<Rightarrow> bool" where
  "isWhiteSpace c = ((of_char c :: nat) \<in> {9, 10, 11, 12, 13, 32})"

fun stripSign :: "string \<Rightarrow> int \<times> string" where
  "stripSign [] = (1, [])"
| "stripSign (c # cs) =
     (if c = CHR ''-'' then (- 1, cs) else if c = CHR ''+'' then (1, cs) else (1, c # cs))"

fun stripHexPrefix :: "string \<Rightarrow> string" where
  "stripHexPrefix (a # b # cs) =
     (if a = CHR ''0'' \<and> (b = CHR ''x'' \<or> b = CHR ''X'') then cs else a # b # cs)"
| "stripHexPrefix s = s"

definition parseInt16 :: "string \<Rightarrow> int option" where
  "parseInt16 s =
     (let (sign, body) = stripSign (dropWhile isWhiteSpace s);
          ds = stripHexPrefix body
      in case ds of
           [] \<Rightarrow> None
         | c # _ \<Rightarrow> (if hexDigitValue c = None then None
                      else Some (sign * int (parseDigits 0 ds))))"

definition hexToNumber :: "string \<Rightarrow> int option" where
  "hexToNumber hexColor = parseInt16 (replaceFirst CHR ''#'' hexColor)"

definition isUpperHexDigit :: "char \<Rightarrow> bool" where
  "isUpperHexDigit c = (c \<in> set ''0123456789ABCDEF'')"

section \<open>Asset manager\<close>

datatype AssetType = IMAGE | SPRITESHEET | ATLAS | AUDIO | JSON | XML | FONT

text \<open>
  A registered asset. The loader options, the frame configuration and the atlas path are
  passed through to the host loader untouched and are left out.
\<close>

record AssetConfig =
  akey :: string
  atype :: AssetType
  apath :: "string list"

record LoadedAsset =
  lkey :: string
  ltype :: AssetType
  loadedAt :: nat

record AssetManager =
  loadedAssets :: "(string \<times> LoadedAsset) list"
  assetRegistry :: "(string \<times> AssetConfig) list"
  loadQueue :: "AssetConfig list"
  isLoading :: bool

text \<open>
  Modelled from the spec: the host engine's loader (\<open>scene.load\<close>; the engine is a
  dependency, not part of the repository). It holds the files added to it, whether a
  load is running, the attached progress callbacks (by identity), and the pending one-shot
  \<open>complete\<close> and \<open>loaderror\<close> listeners of \<open>loadAssets\<close>; a \<open>complete\<close> listener is a
  closure over the assets of its call.
\<close>

record Loader =
  files :: "AssetConfig list"
  loaderLoading :: bool
  progressListeners :: "nat list"
  completeOnce :: "AssetConfig list list"
  loaderrorOnce :: nat

definition newAssetManager :: AssetManager where
  "newAssetManager = \<lparr>loadedAssets = [], assetRegistry = [], loadQueue = [], isLoading = False\<rparr>"

definition registerAsset :: "AssetType \<Rightarrow> string \<Rightarrow> string list \<Rightarrow> AssetManager \<Rightarrow> AssetManager" where
  "registerAsset ty k p am =
     am\<lparr>assetRegistry := AList.update k \<lparr>akey = k, atype = ty, apath = p\<rparr> (assetRegistry am)\<rparr>"

definition registerImage :: "string \<Rightarrow> string list \<Rightarrow> AssetManager \<Rightarrow> AssetManager" where
  "registerImage k p am = registerAsset IMAGE k p am"

definition registerAudio :: "string \<Rightarrow> string list \<Rightarrow> AssetManager \<Rightarrow> AssetManager" where
  "registerAudio k p am = registerAsset AUDIO k p am"

definition registerJSON :: "string \<Rightarrow> string list \<Rightarrow> AssetManager \<Rightarrow> AssetManager" where
  "registerJSON k p am = registerAsset JSON k p am"

text \<open>\<open>addToLoadQueue\<close>: every asset type hands the file to the host loader.\<close>

definition addToLoadQueue :: "AssetConfig \<Rightarrow> Loader \<Rightarrow> Loader" where
  "addToLoadQueue asset ld = ld\<lparr>files := files ld @ [asset]\<rparr>"

definition onLoadComplete :: "nat \<Rightarrow> AssetConfig list \<Rightarrow> AssetManager \<Rightarrow> AssetManager" where
  "onLoadComplete now loaded am =
     am\<lparr>loadedAssets := fold (\<lambda>a. AList.update (akey a)
            \<lparr>lkey = akey a, ltype = atype a, loadedAt = now\<rparr>) loaded (loadedAssets am)\<rparr>"

text \<open>
  Modelled from the spec: the host loader finishes its queue. The queue is empty again, no
  load is running, and the \<open>complete\<close> event runs every pending one-shot listener.
\<close>

definition loaderComplete :: "nat \<Rightarrow> AssetManager \<times> Loader \<Rightarrow> AssetManager \<times> Loader" where
  "loaderComplete now st =
     (case st of (am, ld) \<Rightarrow>
        (fold (onLoadComplete now) (completeOnce ld) am,
         ld\<lparr>files := [], loaderLoading := False, completeOnce := []\<rparr>))"

text \<open>
  Modelled from the spec: the host loader's \<open>start()\<close>. With nothing queued it completes at
  once; otherwise the load is running until the host signals its end.
\<close>

definition loaderStart :: "nat \<Rightarrow> AssetManager \<times> Loader \<Rightarrow> AssetManager \<times> Loader" where
  "loaderStart now st =
     (case st of (am, ld) \<Rightarrow>
        if files ld = [] then loaderComplete now (am, ld)
        else (am, ld\<lparr>loaderLoading := True\<rparr>))"

text \<open>
  How a call of \<open>loadAssets\<close> ends: it warned that a load is already running and returned;
  it warned that there is nothing to load and returned; it returned the promise that
  settles with the host's \<open>complete\<close> or \<open>loaderror\<close>; or it queued its assets while the
  host loader was busy and returned without a promise of its own.
\<close>

datatype LoadOutcome = AlreadyLoading | NoAssets | Pending | QueuedOnly

text \<open>
  \<open>loadAssets\<close> is an \<open>async\<close> function without an \<open>await\<close>: its body runs to the end
  within the call. \<open>return new Promise(...)\<close> inside \<open>try\<close> runs the executor, and then the
  \<open>finally\<close> block, before the call returns; the promise settles later. \<open>now\<close> is the
  clock reading \<open>onLoadComplete\<close> would take, \<open>onProgress\<close> the identity of the progress
  callback when one is given.
\<close>

definition loadAssets ::
  "string list option \<Rightarrow> nat option \<Rightarrow> nat \<Rightarrow> AssetManager \<times> Loader
     \<Rightarrow> LoadOutcome \<times> AssetManager \<times> Loader" where
  "loadAssets keys onProgress now st =
     (case st of (am, ld) \<Rightarrow>
        if isLoading am then (AlreadyLoading, am, ld)
        else
          (let am1 = am\<lparr>isLoading := True\<rparr>;
               assetsToLoad = (case keys of
                                 Some ks \<Rightarrow> List.map_filter (map_of (assetRegistry am1)) ks
                               | None \<Rightarrow> map snd (assetRegistry am1));
               finally = (\<lambda>(am', ld').
                  (am'\<lparr>isLoading := False\<rparr>,
                   case onProgress of
                     None \<Rightarrow> ld'
                   | Some p \<Rightarrow> ld'\<lparr>progressListeners := removeAll p (progressListeners ld')\<rparr>))
           in if assetsToLoad = [] then (NoAssets, finally (am1, ld))
              else
                (let ld1 = (case onProgress of
                              None \<Rightarrow> ld
                            | Some p \<Rightarrow> ld\<lparr>progressListeners := progressListeners ld @ [p]\<rparr>);
                     ld2 = fold addToLoadQueue assetsToLoad ld1
                 in if \<not> loaderLoading ld2 then
                      (Pending,
                       finally (loaderStart now
                         (am1, ld2\<lparr>completeOnce := completeOnce ld2 @ [assetsToLoad],
                                   loaderrorOnce := Suc (loaderrorOnce ld2)\<rparr>)))
                    else (QueuedOnly, finally (am1, ld2)))))"

section \<open>Host engine: sounds, tweens and the audio cache\<close>

text \<open>
  A playback handle is a reference to a sound object owned by the host engine. The model
  keeps the host's sound objects in a list; a handle is the index of its object, so two
  handles are the same object exactly when they are equal, and \<open>scene.sound.add\<close>
  returns a handle no earlier call returned.
\<close>

type_synonym handle = nat

record SoundConfig =
  cfgVolume :: "real option"
  cfgRate :: "real option"
  cfgDetune :: "real option"
  cfgSeek :: "real option"
  cfgLoop :: "bool option"
  cfgDelay :: "real option"

definition emptySoundConfig :: SoundConfig where
  "emptySoundConfig = \<lparr>cfgVolume = None, cfgRate = None, cfgDetune = None, cfgSeek = None,
     cfgLoop = None, cfgDelay = None\<rparr>"

text \<open>Object spread \<open>{...a, ...b}\<close>: a field present in \<open>b\<close> wins.\<close>

definition orElse :: "'a option \<Rightarrow> 'a option \<Rightarrow> 'a option" where
  "orElse b a = (case b of None \<Rightarrow> a | Some v \<Rightarrow> Some v)"

definition spread :: "SoundConfig \<Rightarrow> SoundConfig \<Rightarrow> SoundConfig" where
  "spread a b = \<lparr>cfgVolume = orElse (cfgVolume b) (cfgVolume a),
     cfgRate = orElse (cfgRate b) (cfgRate a),
     cfgDetune = orElse (cfgDetune b) (cfgDetune a),
     cfgSeek = orElse (cfgSeek b) (cfgSeek a),
     cfgLoop = orElse (cfgLoop b) (cfgLoop a),
     cfgDelay = orElse (cfgDelay b) (cfgDelay a)\<rparr>"

text \<open>
  Modelled from the spec: the host engine's sound object (the engine is a dependency, not
  part of the repository). It carries the configuration it was created with, the
  playing/paused flags the engine's \<open>stop\<close>, \<open>pause\<close> and \<open>resume\<close> read and write, and the
  two one-shot listeners \<open>playSound\<close> registers on it. Each listener is a closure over the
  category object the sound was pushed to; the model records that object's identity.
\<close>

record HostSound =
  skey :: string
  sconfig :: SoundConfig
  svolume :: real
  isPlaying :: bool
  isPaused :: bool
  onceComplete :: "nat option"
  onceStop :: "nat option"

text \<open>
  Modelled from the spec: a fade is a time-driven interpolation owned by the host's tween
  system. The registry only starts one and reacts to its completion; the model keeps the
  target handle, the end volume, the duration, and what runs on completion. The only
  completion callback the registry ever passes to \<open>fadeOutSound\<close> is the one of \<open>stopBGM\<close>,
  which clears the BGM slot.
\<close>

datatype FadeCallback = NoCallback | ClearBGM

datatype TweenKind = FadeIn | FadeOut FadeCallback

record Tween =
  ttarget :: handle
  tvolume :: real
  tduration :: real
  tkind :: TweenKind
  tplaying :: bool

text \<open>
  The scene as the registry sees it: the keys of \<open>scene.cache.audio\<close>, the sound objects of
  \<open>scene.sound\<close>, the tweens of \<open>scene.tweens\<close>, whether the registry's two scene-event
  listeners are attached, and the keys for which \<open>scene.sound.add\<close> raises (the call sits
  in a \<open>try\<close> block of \<open>playSound\<close>).
\<close>

record Scene =
  audioCache :: "string set"
  hsounds :: "HostSound list"
  tweens :: "Tween list"
  addRaises :: "string \<Rightarrow> bool"
  eventsAttached :: bool

text \<open>Modelled from the spec: \<open>Phaser.Math.Clamp(value, min, max)\<close> of the host engine.\<close>

definition Clamp :: "real \<Rightarrow> real \<Rightarrow> real \<Rightarrow> real" where
  "Clamp v lo hi = max lo (min hi v)"

section \<open>Sound manager: data model\<close>

record SoundCategoryConfig =
  ccVolume :: "real option"
  ccLoop :: "bool option"
  ccMaxConcurrent :: "real option"
  ccInterrupts :: "bool option"
  ccFadeInDuration :: "real option"
  ccFadeOutDuration :: "real option"

definition emptyCategoryConfig :: SoundCategoryConfig where
  "emptyCategoryConfig = \<lparr>ccVolume = None, ccLoop = None, ccMaxConcurrent = None,
     ccInterrupts = None, ccFadeInDuration = None, ccFadeOutDuration = None\<rparr>"

text \<open>
  A category is a mutable object: \<open>defineCategory\<close> creates a new one each time, and the
  listeners of a sound keep the object the sound was pushed to even after the name is
  bound to a newer object. \<open>cid\<close> is the object's identity (its allocation number).
\<close>

record SoundCategory =
  name :: string
  volume :: real
  loop :: bool
  maxConcurrent :: real
  interrupts :: bool
  fadeInDuration :: "real option"
  fadeOutDuration :: "real option"
  playingSounds :: "handle list"
  cid :: nat

record SoundEntry =
  key :: string
  category :: string
  path :: "string list"
  config :: SoundConfig
  isLoaded :: bool

record SoundManagerSettings =
  sGlobalVolume :: real
  sIsMuted :: bool
  categoryVolumes :: "(string \<times> real) list"

text \<open>
  The two \<open>Map\<close>s are association lists in insertion order; \<open>Map.set\<close> is
  \<open>AList.update\<close> (an existing key keeps its place) and \<open>Map.get\<close> is \<open>map_of\<close>.
\<close>

record SoundManager =
  scene :: Scene
  assetManager :: "AssetManager option"
  sounds :: "(string \<times> SoundEntry) list"
  categories :: "(string \<times> SoundCategory) list"
  currentBGM :: "string option"
  bgmSound :: "handle option"
  globalVolume :: real
  isMuted :: bool
  fadeTweens :: "(string \<times> nat) list"
  nextCid :: nat

section \<open>Sound manager: host calls\<close>

definition updSound :: "handle \<Rightarrow> (HostSound \<Rightarrow> HostSound) \<Rightarrow> Scene \<Rightarrow> Scene" where
  "updSound h f sc = sc\<lparr>hsounds := (hsounds sc)[h := f (hsounds sc ! h)]\<rparr>"

definition setVolume :: "handle \<Rightarrow> real \<Rightarrow> Scene \<Rightarrow> Scene" where
  "setVolume h v sc = updSound h (\<lambda>s. s\<lparr>svolume := v\<rparr>) sc"

definition play :: "handle \<Rightarrow> Scene \<Rightarrow> Scene" where
  "play h sc = updSound h (\<lambda>s. s\<lparr>isPlaying := True, isPaused := False\<rparr>) sc"

definition pauseSound :: "HostSound \<Rightarrow> HostSound" where
  "pauseSound s = (if isPaused s \<or> \<not> isPlaying s then s
                   else s\<lparr>isPlaying := False, isPaused := True\<rparr>)"

definition resumeSound :: "HostSound \<Rightarrow> HostSound" where
  "resumeSound s = (if \<not> isPaused s \<or> isPlaying s then s
                    else s\<lparr>isPlaying := True, isPaused := False\<rparr>)"

definition pauseAll :: "Scene \<Rightarrow> Scene" where
  "pauseAll sc = sc\<lparr>hsounds := map pauseSound (hsounds sc)\<rparr>"

definition resumeAll :: "Scene \<Rightarrow> Scene" where
  "resumeAll sc = sc\<lparr>hsounds := map resumeSound (hsounds sc)\<rparr>"

definition addTween :: "Tween \<Rightarrow> Scene \<Rightarrow> Scene" where
  "addTween t sc = sc\<lparr>tweens := tweens sc @ [t]\<rparr>"

definition stopTween :: "nat \<Rightarrow> Scene \<Rightarrow> Scene" where
  "stopTween i sc = sc\<lparr>tweens := (tweens sc)[i := (tweens sc ! i)\<lparr>tplaying := False\<rparr>]\<rparr>"

section \<open>Sound manager: operations\<close>

definition defineCategory :: "string \<Rightarrow> SoundCategoryConfig \<Rightarrow> SoundManager \<Rightarrow> SoundManager" where
  "defineCategory nm cfg sm =
     sm\<lparr>categories := AList.update nm
            \<lparr>name = nm,
             volume = (case ccVolume cfg of None \<Rightarrow> 1 | Some v \<Rightarrow> v),
             loop = (case ccLoop cfg of None \<Rightarrow> False | Some b \<Rightarrow> b),
             maxConcurrent = (case ccMaxConcurrent cfg of None \<Rightarrow> 5 | Some m \<Rightarrow> m),
             interrupts = (case ccInterrupts cfg of None \<Rightarrow> False | Some b \<Rightarrow> b),
             fadeInDuration = ccFadeInDuration cfg,
             fadeOutDuration = ccFadeOutDuration cfg,
             playingSounds = [],
             cid = nextCid sm\<rparr> (categories sm),
        nextCid := Suc (nextCid sm)\<rparr>"

definition setupDefaultCategories :: "SoundManager \<Rightarrow> SoundManager" where
  "setupDefaultCategories sm =
     defineCategory ''ambient''
       (emptyCategoryConfig\<lparr>ccVolume := Some 0.5, ccLoop := Some True,
          ccMaxConcurrent := Some 3, ccInterrupts := Some False\<rparr>)
    (defineCategory ''voice''
       (emptyCategoryConfig\<lparr>ccVolume := Some 0.9, ccMaxConcurrent := Some 1,
          ccInterrupts := Some True\<rparr>)
    (defineCategory ''bgm''
       (emptyCategoryConfig\<lparr>ccVolume := Some 0.7, ccLoop := Some True,
          ccMaxConcurrent := Some 1, ccInterrupts := Some True,
          ccFadeInDuration := Some 1000, ccFadeOutDuration := Some 1000\<rparr>)
    (defineCategory ''sfx''
       (emptyCategoryConfig\<lparr>ccVolume := Some 1.0, ccMaxConcurrent := Some 10,
          ccInterrupts := Some False\<rparr>)
    (defineCategory ''ui''
       (emptyCategoryConfig\<lparr>ccVolume := Some 0.8, ccMaxConcurrent := Some 5,
          ccInterrupts := Some False\<rparr>) sm))))"

definition newSoundManager :: "Scene \<Rightarrow> AssetManager option \<Rightarrow> SoundManager" where
  "newSoundManager sc am =
     (setupDefaultCategories
        \<lparr>scene = sc, assetManager = am, sounds = [], categories = [], currentBGM = None,
         bgmSound = None, globalVolume = 1.0, isMuted = False, fadeTweens = [],
         nextCid = 0\<rparr>)
     \<lparr>scene := sc\<lparr>eventsAttached := True\<rparr>\<rparr>"

definition registerSound ::
  "string \<Rightarrow> string \<Rightarrow> string list \<Rightarrow> SoundConfig option \<Rightarrow> SoundManager \<Rightarrow> SoundManager" where
  "registerSound k cat p cfg sm =
     (let sm1 = (if map_of (categories sm) cat = None
                 then defineCategory cat emptyCategoryConfig sm else sm);
          sm2 = sm1\<lparr>sounds := AList.update k
                   \<lparr>key = k, category = cat, path = p,
                    config = (case cfg of None \<Rightarrow> emptySoundConfig | Some c \<Rightarrow> c),
                    isLoaded = False\<rparr> (sounds sm1)\<rparr>
      in case assetManager sm2 of
           None \<Rightarrow> sm2
         | Some am \<Rightarrow> sm2\<lparr>assetManager := Some (registerAudio k p am)\<rparr>)"

definition registerSounds ::
  "(string \<times> string \<times> string list \<times> SoundConfig option) list \<Rightarrow> SoundManager \<Rightarrow> SoundManager" where
  "registerSounds rs sm = fold (\<lambda>(k, cat, p, cfg). registerSound k cat p cfg) rs sm"

text \<open>
  \<open>removeFromCategory(sound, category)\<close>: \<open>indexOf\<close> then \<open>splice(index, 1)\<close> drops the
  first occurrence, and nothing when the sound is not in the list. The category is the
  object the calling listener closed over; when that object is no longer bound in the
  map, the removal touches nothing the registry can reach.
\<close>

definition removeFromCategory :: "handle \<Rightarrow> nat \<Rightarrow> SoundManager \<Rightarrow> SoundManager" where
  "removeFromCategory h c sm =
     sm\<lparr>categories := map (\<lambda>(n, cat).
            (n, if cid cat = c then cat\<lparr>playingSounds := remove1 h (playingSounds cat)\<rparr>
                else cat)) (categories sm)\<rparr>"

text \<open>
  Modelled from the spec: the host's \<open>sound.stop()\<close>. A sound that is neither playing nor
  paused is left alone and emits nothing; otherwise both flags are cleared and the
  \<open>stop\<close> event runs the one-shot listener, if it is still registered.
\<close>

definition stopSound :: "handle \<Rightarrow> SoundManager \<Rightarrow> SoundManager" where
  "stopSound h sm =
     (if h < length (hsounds (scene sm)) then
        (let s = hsounds (scene sm) ! h in
         if \<not> isPaused s \<and> \<not> isPlaying s then sm
         else (let sm1 = sm\<lparr>scene := updSound h
                           (\<lambda>s. s\<lparr>isPlaying := False, isPaused := False, onceStop := None\<rparr>)
                           (scene sm)\<rparr>
               in case onceStop s of None \<Rightarrow> sm1 | Some c \<Rightarrow> removeFromCategory h c sm1))
      else sm)"

text \<open>
  Modelled from the spec: the host signals that a playing sound reached its end. The sound
  stops playing and the \<open>complete\<close> event runs the one-shot listener.
\<close>

definition soundCompleted :: "handle \<Rightarrow> SoundManager \<Rightarrow> SoundManager" where
  "soundCompleted h sm =
     (if h < length (hsounds (scene sm)) \<and> isPlaying (hsounds (scene sm) ! h) then
        (let s = hsounds (scene sm) ! h;
             sm1 = sm\<lparr>scene := updSound h
                     (\<lambda>s. s\<lparr>isPlaying := False, onceComplete := None\<rparr>) (scene sm)\<rparr>
         in case onceComplete s of None \<Rightarrow> sm1 | Some c \<Rightarrow> removeFromCategory h c sm1)
      else sm)"

definition mapCategory ::
  "string \<Rightarrow> (SoundCategory \<Rightarrow> SoundCategory) \<Rightarrow> SoundManager \<Rightarrow> SoundManager" where
  "mapCategory nm f sm = sm\<lparr>categories := AList.map_entry nm f (categories sm)\<rparr>"

text \<open>
  The new sound of \<open>playSound\<close>: everything inside the \<open>try\<close> block. \<open>nm\<close> is the name the
  category object is bound to and \<open>cat\<close> the object as read before the block.
\<close>

definition startSound ::
  "string \<Rightarrow> SoundEntry \<Rightarrow> string \<Rightarrow> SoundCategory \<Rightarrow> SoundConfig option \<Rightarrow> SoundManager
     \<Rightarrow> handle option \<times> SoundManager" where
  "startSound k e nm cat cfg sm =
     (if addRaises (scene sm) k then (None, sm)
      else
        (let h = length (hsounds (scene sm));
             eff = volume cat * globalVolume sm;
             merged = spread (spread (emptySoundConfig\<lparr>cfgVolume := Some eff,
                         cfgLoop := Some (loop cat)\<rparr>) (config e))
                       (case cfg of None \<Rightarrow> emptySoundConfig | Some c \<Rightarrow> c);
             snd = \<lparr>skey = k, sconfig = merged,
                    svolume = (case cfgVolume merged of None \<Rightarrow> 1 | Some v \<Rightarrow> v),
                    isPlaying = False, isPaused = False,
                    onceComplete = Some (cid cat), onceStop = Some (cid cat)\<rparr>;
             sm1 = sm\<lparr>scene := (scene sm)\<lparr>hsounds := hsounds (scene sm) @ [snd]\<rparr>\<rparr>;
             sm2 = mapCategory nm (\<lambda>c. c\<lparr>playingSounds := playingSounds c @ [h]\<rparr>) sm1;
             fadeIn = (case fadeInDuration cat of
                         None \<Rightarrow> None
                       | Some d \<Rightarrow> if d \<noteq> 0 \<and> 0 < d then Some d else None)
         in case fadeIn of
              Some d \<Rightarrow>
                (let sc1 = play h (setVolume h 0 (scene sm2));
                     tw = \<lparr>ttarget = h, tvolume = eff, tduration = d,
                            tkind = FadeIn, tplaying = True\<rparr>
                 in (Some h, sm2\<lparr>scene := addTween tw sc1,
                               fadeTweens := AList.update (k @ ''_fadein'') (length (tweens sc1))
                                               (fadeTweens sm2)\<rparr>))
            | None \<Rightarrow> (Some h, sm2\<lparr>scene := play h (scene sm2)\<rparr>)))"

definition playSound ::
  "string \<Rightarrow> SoundConfig option \<Rightarrow> SoundManager \<Rightarrow> handle option \<times> SoundManager" where
  "playSound k cfg sm =
     (if isMuted sm then (None, sm)
      else case map_of (sounds sm) k of
        None \<Rightarrow> (None, sm)
      | Some soundEntry \<Rightarrow>
         (case map_of (categories sm) (category soundEntry) of
            None \<Rightarrow> (None, sm)
          | Some cat \<Rightarrow>
             if k \<notin> audioCache (scene sm) then (None, sm)
             else if maxConcurrent cat \<le> real (length (playingSounds cat)) then
               (if interrupts cat then
                  (let sm1 = mapCategory (category soundEntry)
                               (\<lambda>c. c\<lparr>playingSounds := tl (playingSounds c)\<rparr>) sm;
                       sm2 = (case playingSounds cat of
                                [] \<Rightarrow> sm1
                              | oldestSound # _ \<Rightarrow> stopSound oldestSound sm1)
                   in startSound k soundEntry (category soundEntry) cat cfg sm2)
                else (None, sm))
             else startSound k soundEntry (category soundEntry) cat cfg sm))"

definition getCategoryBySound :: "string \<Rightarrow> SoundManager \<Rightarrow> SoundCategory option" where
  "getCategoryBySound soundKey sm =
     (case map_of (sounds sm) soundKey of
        None \<Rightarrow> None
      | Some soundEntry \<Rightarrow> map_of (categories sm) (category soundEntry))"

definition fadeOutSound :: "handle \<Rightarrow> real \<Rightarrow> FadeCallback \<Rightarrow> SoundManager \<Rightarrow> SoundManager" where
  "fadeOutSound h duration onComplete sm =
     sm\<lparr>scene := addTween \<lparr>ttarget = h, tvolume = 0, tduration = duration,
                         tkind = FadeOut onComplete, tplaying = True\<rparr> (scene sm)\<rparr>"

definition runFadeCallback :: "FadeCallback \<Rightarrow> SoundManager \<Rightarrow> SoundManager" where
  "runFadeCallback cb sm =
     (case cb of NoCallback \<Rightarrow> sm | ClearBGM \<Rightarrow> sm\<lparr>bgmSound := None, currentBGM := None\<rparr>)"

text \<open>
  Modelled from the spec: the host's tween system signals that a running tween reached its
  end. The target has the end volume, and a fade-out runs its \<open>onComplete\<close>: stop the
  sound, then the caller's callback.
\<close>

definition tweenCompleted :: "nat \<Rightarrow> SoundManager \<Rightarrow> SoundManager" where
  "tweenCompleted i sm =
     (if i < length (tweens (scene sm)) \<and> tplaying (tweens (scene sm) ! i) then
        (let t = tweens (scene sm) ! i;
             sc1 = stopTween i (scene sm);
             sc2 = (if ttarget t < length (hsounds sc1) then setVolume (ttarget t) (tvolume t) sc1
                    else sc1);
             sm1 = sm\<lparr>scene := sc2\<rparr>
         in case tkind t of
              FadeIn \<Rightarrow> sm1
            | FadeOut cb \<Rightarrow> runFadeCallback cb (stopSound (ttarget t) sm1))
      else sm)"

text \<open>
  \<open>if (this.bgmSound && this.currentBGM)\<close>: the empty string is falsy. The optional chain
  \<open>category?.fadeOutDuration && category.fadeOutDuration > 0\<close> holds for a positive number
  only.
\<close>

definition stopBGM :: "SoundManager \<Rightarrow> SoundManager" where
  "stopBGM sm =
     (case (bgmSound sm, currentBGM sm) of
        (Some h, Some k) \<Rightarrow>
          (if k = [] then sm
           else
             (let fade = (case getCategoryBySound k sm of
                            None \<Rightarrow> None
                          | Some cat \<Rightarrow>
                              (case fadeOutDuration cat of
                                 None \<Rightarrow> None
                               | Some d \<Rightarrow> if d \<noteq> 0 \<and> 0 < d then Some d else None))
              in case fade of
                   Some d \<Rightarrow> fadeOutSound h d ClearBGM sm
                 | None \<Rightarrow> (stopSound h sm)\<lparr>bgmSound := None, currentBGM := None\<rparr>))
      | _ \<Rightarrow> sm)"

definition playBGM :: "string \<Rightarrow> SoundConfig option \<Rightarrow> SoundManager \<Rightarrow> SoundManager" where
  "playBGM k cfg sm =
     (case playSound k cfg (stopBGM sm) of
        (None, sm1) \<Rightarrow> sm1
      | (Some h, sm1) \<Rightarrow> sm1\<lparr>currentBGM := Some k, bgmSound := Some h\<rparr>)"

definition stopCategory :: "string \<Rightarrow> SoundManager \<Rightarrow> SoundManager" where
  "stopCategory categoryName sm =
     (case map_of (categories sm) categoryName of
        None \<Rightarrow> sm
      | Some cat \<Rightarrow>
          mapCategory categoryName (\<lambda>c. c\<lparr>playingSounds := []\<rparr>)
            (fold stopSound (playingSounds cat) sm))"

definition clearFadeTweens :: "SoundManager \<Rightarrow> SoundManager" where
  "clearFadeTweens sm =
     sm\<lparr>scene := fold (\<lambda>(k, i) sc.
                     if i < length (tweens sc) \<and> tplaying (tweens sc ! i) then stopTween i sc
                     else sc) (fadeTweens sm) (scene sm),
        fadeTweens := []\<rparr>"

definition hostStopAll :: "SoundManager \<Rightarrow> SoundManager" where
  "hostStopAll sm = fold stopSound [0..<length (hsounds (scene sm))] sm"

definition stopAll :: "SoundManager \<Rightarrow> SoundManager" where
  "stopAll sm =
     clearFadeTweens
       ((hostStopAll sm)
          \<lparr>categories := map (\<lambda>(n, c). (n, c\<lparr>playingSounds := []\<rparr>)) (categories (hostStopAll sm)),
           currentBGM := None, bgmSound := None\<rparr>)"

definition setVolumes :: "handle list \<Rightarrow> real \<Rightarrow> Scene \<Rightarrow> Scene" where
  "setVolumes hs v sc = fold (\<lambda>h. setVolume h v) hs sc"

definition setCategoryVolume :: "string \<Rightarrow> real \<Rightarrow> SoundManager \<Rightarrow> SoundManager" where
  "setCategoryVolume categoryName v sm =
     (case map_of (categories sm) categoryName of
        None \<Rightarrow> sm
      | Some cat \<Rightarrow>
          (let sm1 = mapCategory categoryName (\<lambda>c. c\<lparr>volume := Clamp v 0 1\<rparr>) sm
           in sm1\<lparr>scene := setVolumes (playingSounds cat) (Clamp v 0 1 * globalVolume sm)
                              (scene sm1)\<rparr>))"

definition setGlobalVolume :: "real \<Rightarrow> SoundManager \<Rightarrow> SoundManager" where
  "setGlobalVolume v sm =
     sm\<lparr>globalVolume := Clamp v 0 1,
        scene := fold (\<lambda>(n, cat). setVolumes (playingSounds cat) (volume cat * Clamp v 0 1))
                   (categories sm) (scene sm)\<rparr>"

definition setMuted :: "bool \<Rightarrow> SoundManager \<Rightarrow> SoundManager" where
  "setMuted muted sm =
     sm\<lparr>isMuted := muted,
        scene := (if muted then pauseAll (scene sm) else resumeAll (scene sm))\<rparr>"

definition toggleMute :: "SoundManager \<Rightarrow> SoundManager" where
  "toggleMute sm = setMuted (\<not> isMuted sm) sm"

definition getCurrentBGM :: "SoundManager \<Rightarrow> string option" where
  "getCurrentBGM sm = currentBGM sm"

definition getCategory :: "string \<Rightarrow> SoundManager \<Rightarrow> SoundCategory option" where
  "getCategory nm sm = map_of (categories sm) nm"

text \<open>
  \<open>categoryVolumes\<close> is a plain object filled by assignment. Assigning under the key
  \<open>__proto__\<close> runs the accessor every plain object inherits; given a number it does
  nothing and no own property appears, so \<open>Object.entries\<close> does not list that key.
  Every other key becomes an own property. The association list holds the object's
  entries in the order of assignment (\<open>Object.entries\<close> lists integer-like keys
  first).
\<close>

definition assignProperty :: "string \<Rightarrow> real \<Rightarrow> (string \<times> real) list \<Rightarrow> (string \<times> real) list" where
  "assignProperty n v obj = (if n = ''__proto__'' then obj else AList.update n v obj)"

definition saveSettings :: "SoundManager \<Rightarrow> SoundManagerSettings" where
  "saveSettings sm =
     \<lparr>sGlobalVolume = globalVolume sm, sIsMuted = isMuted sm,
      categoryVolumes = fold (\<lambda>(n, cat) acc. assignProperty n (volume cat) acc) (categories sm) []\<rparr>"

definition loadSettings :: "SoundManagerSettings \<Rightarrow> SoundManager \<Rightarrow> SoundManager" where
  "loadSettings settings sm =
     fold (\<lambda>(cat, v). setCategoryVolume cat v) (categoryVolumes settings)
       (setMuted (sIsMuted settings) (setGlobalVolume (sGlobalVolume settings) sm))"

definition dispose :: "SoundManager \<Rightarrow> SoundManager" where
  "dispose sm =
     (let sm1 = clearFadeTweens (stopAll sm)
      in sm1\<lparr>sounds := [], categories := [],
             scene := (scene sm1)\<lparr>eventsAttached := False\<rparr>\<rparr>)"

section \<open>Sound manager: sequences of operations\<close>

text \<open>
  Everything that can happen to a registry between two observations: a call of one of its
  methods, or one of the host's signals (a sound completed, a handle was stopped by its
  holder, a tween completed, an audio key entered the cache, the scene shut down or was
  destroyed). A caller's own completion callback for \<open>fadeOutSound\<close> is outside the
  registry and is left out.
\<close>

datatype Op =
    DefineCategory string SoundCategoryConfig
  | RegisterSound string string "string list" "SoundConfig option"
  | PlaySound string "SoundConfig option"
  | PlayBGM string "SoundConfig option"
  | StopBGM
  | FadeOutSound handle real
  | StopCategory string
  | StopAll
  | SetCategoryVolume string real
  | SetGlobalVolume real
  | SetMuted bool
  | ToggleMute
  | LoadSettings SoundManagerSettings
  | Dispose
  | SoundCompleted handle
  | SoundStopped handle
  | TweenCompleted nat
  | AudioCached string
  | SceneShutdown
  | SceneDestroy

fun exec :: "Op \<Rightarrow> SoundManager \<Rightarrow> SoundManager" where
  "exec (DefineCategory nm cfg) sm = defineCategory nm cfg sm"
| "exec (RegisterSound k cat p cfg) sm = registerSound k cat p cfg sm"
| "exec (PlaySound k cfg) sm = snd (playSound k cfg sm)"
| "exec (PlayBGM k cfg) sm = playBGM k cfg sm"
| "exec StopBGM sm = stopBGM sm"
| "exec (FadeOutSound h d) sm = fadeOutSound h d NoCallback sm"
| "exec (StopCategory nm) sm = stopCategory nm sm"
| "exec StopAll sm = stopAll sm"
| "exec (SetCategoryVolume nm v) sm = setCategoryVolume nm v sm"
| "exec (SetGlobalVolume v) sm = setGlobalVolume v sm"
| "exec (SetMuted b) sm = setMuted b sm"
| "exec ToggleMute sm = toggleMute sm"
| "exec (LoadSettings st) sm = loadSettings st sm"
| "exec Dispose sm = dispose sm"
| "exec (SoundCompleted h) sm = soundCompleted h sm"
| "exec (SoundStopped h) sm = stopSound h sm"
| "exec (TweenCompleted i) sm = tweenCompleted i sm"
| "exec (AudioCached k) sm = sm\<lparr>scene := (scene sm)\<lparr>audioCache := insert k (audioCache (scene sm))\<rparr>\<rparr>"
| "exec SceneShutdown sm = (if eventsAttached (scene sm) then stopAll sm else sm)"
| "exec SceneDestroy sm = (if eventsAttached (scene sm) then dispose sm else sm)"

definition run :: "Op list \<Rightarrow> SoundManager \<Rightarrow> SoundManager" where
  "run ops sm = fold exec ops sm"

text \<open>The operations that write the mute flag.\<close>

fun writesMute :: "Op \<Rightarrow> bool" where
  "writesMute (SetMuted b) = True"
| "writesMute ToggleMute = True"
| "writesMute (LoadSettings st) = True"
| "writesMute _ = False"

section \<open>Sound manager: invariants\<close>

definition isPositiveInteger :: "real \<Rightarrow> bool" where
  "isPositiveInteger x = (0 < x \<and> real_of_int \<lfloor>x\<rfloor> = x)"

text \<open>The concurrency limit of one category, for a limit that is a positive integer.\<close>

definition withinLimit :: "SoundCategory \<Rightarrow> bool" where
  "withinLimit c =
     (isPositiveInteger (maxConcurrent c) \<longrightarrow> real (length (playingSounds c)) \<le> maxConcurrent c)"

definition limitsHold :: "SoundManager \<Rightarrow> bool" where
  "limitsHold sm = list_all (\<lambda>p. withinLimit (snd p)) (categories sm)"

text \<open>
  The handles the registry tracks, category by category. In a well-tracked registry no
  handle is tracked twice (neither within a category nor by two categories) and every
  tracked handle is a sound object of the host.
\<close>

definition activeHandles :: "SoundManager \<Rightarrow> handle list" where
  "activeHandles sm = concat (map (\<lambda>p. playingSounds (snd p)) (categories sm))"

definition wellTracked :: "SoundManager \<Rightarrow> bool" where
  "wellTracked sm =
     (distinct (activeHandles sm)
      \<and> list_all (\<lambda>h. h < length (hsounds (scene sm))) (activeHandles sm))"

text \<open>
  An operation that adds no handle: the categories keep their names and limits, each
  active list loses elements at most, and no host sound object disappears.
\<close>

definition catLe :: "string \<times> SoundCategory \<Rightarrow> string \<times> SoundCategory \<Rightarrow> bool" where
  "catLe q p =
     (fst q = fst p \<and> maxConcurrent (snd q) = maxConcurrent (snd p)
      \<and> length (playingSounds (snd q)) \<le> length (playingSounds (snd p))
      \<and> set (playingSounds (snd q)) \<subseteq> set (playingSounds (snd p))
      \<and> (distinct (playingSounds (snd p)) \<longrightarrow> distinct (playingSounds (snd q))))"

definition shrinks :: "SoundManager \<Rightarrow> SoundManager \<Rightarrow> bool" where
  "shrinks sm' sm =
     (list_all2 catLe (categories sm') (categories sm)
      \<and> length (hsounds (scene sm)) \<le> length (hsounds (scene sm')))"

text \<open>
  What the settings round trip relies on: category names are unique (the categories are
  the entries of a \<open>Map\<close>) and the global volume lies in \<open>[0, 1]\<close>.
\<close>

definition settingsSound :: "SoundManager \<Rightarrow> bool" where
  "settingsSound sm =
     (distinct (map fst (categories sm)) \<and> 0 \<le> globalVolume sm \<and> globalVolume sm \<le> 1)"

section \<open>Scenarios\<close>

text \<open>A scene with the audio keys \<open>a\<close> and \<open>b\<close> loaded and nothing playing.\<close>

definition quietScene :: Scene where
  "quietScene = \<lparr>audioCache = {''a'', ''b''}, hsounds = [], tweens = [],
     addRaises = (\<lambda>_. False), eventsAttached = False\<rparr>"

text \<open>
  The BGM scenario: category \<open>bgm\<close> with \<open>maxConcurrent = 1\<close>, \<open>interrupts = true\<close>,
  \<open>fadeOutDuration = 1000\<close>, and the keys \<open>a\<close> and \<open>b\<close> registered in it.
\<close>

definition bgmSetup :: SoundManager where
  "bgmSetup =
     registerSound ''b'' ''bgm'' [''b.mp3''] None
    (registerSound ''a'' ''bgm'' [''a.mp3''] None
    (defineCategory ''bgm''
       (emptyCategoryConfig\<lparr>ccMaxConcurrent := Some 1, ccInterrupts := Some True,
          ccFadeOutDuration := Some 1000\<rparr>)
    (newSoundManager quietScene None)))"

text \<open>An idle host loader, and an asset manager with two images registered.\<close>

definition idleLoader :: Loader where
  "idleLoader = \<lparr>files = [], loaderLoading = False, progressListeners = [],
     completeOnce = [], loaderrorOnce = 0\<rparr>"

definition twoImages :: AssetManager where
  "twoImages = registerImage ''b'' [''b.png''] (registerImage ''a'' [''a.png''] newAssetManager)"


definition playingSetup :: SoundManager where
  "playingSetup = snd (playSound ''a'' None bgmSetup)"

text \<open>Two \<open>ui\<close> sounds playing on a new registry.\<close>

definition uiOps :: "Op list" where
  "uiOps = [RegisterSound ''a'' ''ui'' [''a.mp3''] None, PlaySound ''a'' None,
            PlaySound ''a'' None]"


text \<open>A registry with a category defined at volume 2, and a fresh one with the same names.\<close>

definition loudOps :: "Op list" where
  "loudOps = [DefineCategory ''loud'' (emptyCategoryConfig\<lparr>ccVolume := Some 2\<rparr>)]"

definition freshOps :: "Op list" where
  "freshOps = [DefineCategory ''loud'' emptyCategoryConfig]"

text \<open>A registry with changed settings, all volumes in range.\<close>

definition tunedOps :: "Op list" where
  "tunedOps = [SetGlobalVolume (1 / 2), SetCategoryVolume ''ui'' (1 / 4), SetMuted True]"


text \<open>A registry with a category named like the prototype accessor of a plain object.\<close>

definition protoOps :: "Op list" where
  "protoOps = [DefineCategory ''__proto__'' (emptyCategoryConfig\<lparr>ccVolume := Some (1 / 2)\<rparr>)]"

definition protoFreshOps :: "Op list" where
  "protoFreshOps = [DefineCategory ''__proto__'' emptyCategoryConfig]"

section \<open>Colour utilities: hex round trip\<close>

declare toString16_nat.simps [simp del]

lemma digit_cases:
  "d < 16 \<Longrightarrow> d = 0 \<or> d = 1 \<or> d = 2 \<or> d = 3 \<or> d = 4 \<or> d = 5 \<or> d = 6 \<or> d = 7 \<or> d = 8 \<or> d = 9
     \<or> d = 10 \<or> d = 11 \<or> d = 12 \<or> d = 13 \<or> d = 14 \<or> d = (15::nat)"
  by arith

lemma hexDigitValue_upper:
  assumes "d < 16"
  shows "hexDigitValue (toUpperChar (hexDigitChar d)) = Some d"
  using digit_cases [OF assms]
  by (elim disjE) (simp_all add: hexDigitValue_def toUpperChar_def hexDigitChar_def)
lemma parseDigits_toString:
  "parseDigits acc (map toUpperChar (toString16_nat m) @ rest) =
   parseDigits (acc * 16 ^ length (toString16_nat m) + m) rest"
proof (induction m arbitrary: acc rest rule: toString16_nat.induct)
  case (1 n)
  show ?case
  proof (cases "n < 16")
    case True
    then show ?thesis
      by (simp add: toString16_nat.simps [of n] hexDigitValue_upper)
  next
    case False
    have d: "n mod 16 < 16" by simp
    have "parseDigits acc (map toUpperChar (toString16_nat n) @ rest) =
          parseDigits acc (map toUpperChar (toString16_nat (n div 16)) @
             (toUpperChar (hexDigitChar (n mod 16)) # rest))"
      using False by (simp add: toString16_nat.simps [of n])
    also have "\<dots> = parseDigits (acc * 16 ^ length (toString16_nat (n div 16)) + n div 16)
             (toUpperChar (hexDigitChar (n mod 16)) # rest)"
      using "1.IH" [OF False] by simp
    also have "\<dots> = parseDigits ((acc * 16 ^ length (toString16_nat (n div 16)) + n div 16) * 16 + n mod 16) rest"
      by (simp add: hexDigitValue_upper [OF d])
    also have "(acc * 16 ^ length (toString16_nat (n div 16)) + n div 16) * 16 + n mod 16
          = acc * 16 ^ length (toString16_nat n) + n"
      using False by (simp add: toString16_nat.simps [of n] algebra_simps)
    finally show ?thesis .
  qed
qed

lemma parseDigits_zeros:
  "parseDigits 0 (replicate k CHR ''0'' @ rest) = parseDigits 0 rest"
  by (induction k) (simp_all add: hexDigitValue_def)

lemma toString16_nat_nonempty: "toString16_nat m \<noteq> []"
  by (subst toString16_nat.simps) simp

lemma toString16_nat_digits:
  "c \<in> set (map toUpperChar (toString16_nat m)) \<Longrightarrow> \<exists>d<16. c = toUpperChar (hexDigitChar d)"
proof (induction m rule: toString16_nat.induct)
  case (1 n)
  show ?case
  proof (cases "n < 16")
    case True
    with "1.prems" show ?thesis by (auto simp: toString16_nat.simps [of n])
  next
    case False
    with "1.prems" have "c \<in> set (map toUpperChar (toString16_nat (n div 16))) \<or> c = toUpperChar (hexDigitChar (n mod 16))"
      by (auto simp: toString16_nat.simps [of n])
    then show ?thesis
    proof
      assume "c \<in> set (map toUpperChar (toString16_nat (n div 16)))"
      then show ?thesis using "1.IH" [OF False] by blast
    next
      assume "c = toUpperChar (hexDigitChar (n mod 16))"
      moreover have "n mod 16 < 16" by simp
      ultimately show ?thesis by blast
    qed
  qed
qed

lemma toString16_nat_length:
  "m < 16 ^ k \<Longrightarrow> 0 < k \<Longrightarrow> length (toString16_nat m) \<le> k"
proof (induction m arbitrary: k rule: toString16_nat.induct)
  case (1 n)
  show ?case
  proof (cases "n < 16")
    case True
    with "1.prems" show ?thesis by (simp add: toString16_nat.simps [of n])
  next
    case False
    obtain j where k: "k = Suc j" using "1.prems" by (cases k) auto
    have "0 < j" using False "1.prems" k by (cases j) auto
    moreover have "n div 16 < 16 ^ j" using "1.prems" k
      by (simp add: less_mult_imp_div_less mult.commute)
    ultimately have "length (toString16_nat (n div 16)) \<le> j"
      using "1.IH" [OF False] by blast
    then show ?thesis using False k by (simp add: toString16_nat.simps [of n])
  qed
qed

lemma zero_char_props:
  "\<not> isWhiteSpace CHR ''0''" "hexDigitValue CHR ''0'' = Some 0"
  by (simp_all add: isWhiteSpace_def hexDigitValue_def)



lemma hexChar_upper:
  assumes "d < 16"
  shows "isUpperHexDigit (toUpperChar (hexDigitChar d))"
  using digit_cases [OF assms]
  by (elim disjE) (simp_all add: toUpperChar_def hexDigitChar_def isUpperHexDigit_def)

lemma upper_digit_props:
  assumes "isUpperHexDigit c"
  shows "\<not> isWhiteSpace c" "c \<notin> set ''-+xX#''" "hexDigitValue c \<noteq> None"
  using assms by (auto simp: isUpperHexDigit_def isWhiteSpace_def hexDigitValue_def)

lemma padded_upper:
  "list_all isUpperHexDigit (padStart 6 CHR ''0'' (toUpperCase (toString16_nat m)))"
proof -
  have "list_all isUpperHexDigit (map toUpperChar (toString16_nat m))"
    unfolding list_all_iff using toString16_nat_digits hexChar_upper by blast
  moreover have "isUpperHexDigit CHR ''0''" by (simp add: isUpperHexDigit_def)
  ultimately show ?thesis
    by (auto simp: padStart_def toUpperCase_def list_all_iff)
qed

lemma parseInt16_digits:
  assumes "list_all isUpperHexDigit s" "s \<noteq> []"
  shows "parseInt16 s = Some (int (parseDigits 0 s))"
proof -
  obtain c cs where s: "s = c # cs" using assms(2) by (cases s) auto
  have c: "isUpperHexDigit c" using assms(1) s by simp
  have sp: "\<not> isWhiteSpace c" by (rule upper_digit_props(1) [OF c])
  have sg: "c \<noteq> CHR ''-''" "c \<noteq> CHR ''+''"
    using upper_digit_props(2) [OF c] by auto
  have hp: "stripHexPrefix (c # cs) = c # cs"
  proof (cases cs)
    case Nil
    then show ?thesis by simp
  next
    case (Cons b bs)
    then have "isUpperHexDigit b" using assms(1) s by simp
    then have "b \<noteq> CHR ''x''" "b \<noteq> CHR ''X''"
      using upper_digit_props(2) by auto
    then show ?thesis using Cons by simp
  qed
  have dv: "hexDigitValue c \<noteq> None" by (rule upper_digit_props(3) [OF c])
  show ?thesis
    unfolding s parseInt16_def using sp sg dv
    by (simp add: hp del: parseDigits.simps)
qed

text \<open>
  C10. For every integer \<open>n\<close> with \<open>0 \<le> n \<le> 0xFFFFFF\<close>, \<open>hexToNumber (numberToHex n)\<close>
  is \<open>n\<close> again: \<open>numberToHex\<close> produces a \<open>#\<close> followed by exactly six upper-case hex
  digits, and \<open>hexToNumber\<close> parses that string to a number (not \<open>NaN\<close>), the same
  integer.
\<close>

theorem hex_roundtrip:
  assumes "0 \<le> n" "n \<le> 0xFFFFFF"
  shows "hexToNumber (numberToHex n) = Some n
       \<and> length (numberToHex n) = 7
       \<and> hd (numberToHex n) = CHR ''#''
       \<and> list_all isUpperHexDigit (tl (numberToHex n))"
proof -
  define m where "m = nat n"
  define ds where "ds = toUpperCase (toString16_nat m)"
  define p where "p = padStart 6 CHR ''0'' ds"
  have nh: "numberToHex n = CHR ''#'' # p"
    using assms(1) by (simp add: numberToHex_def toString16_def p_def ds_def m_def)
  have up: "list_all isUpperHexDigit p"
    unfolding p_def ds_def by (rule padded_upper)
  have len_ds: "length ds \<le> 6"
  proof -
    have "m < 16 ^ 6" using assms by (simp add: m_def)
    then show ?thesis
      unfolding ds_def toUpperCase_def using toString16_nat_length [of m 6] by simp
  qed
  have ne: "p \<noteq> []"
    by (simp add: p_def ds_def padStart_def toUpperCase_def toString16_nat_nonempty)
  have len: "length p = 6" using len_ds by (simp add: p_def padStart_def)
  have "hexToNumber (numberToHex n) = parseInt16 p"
    by (simp add: hexToNumber_def nh)
  also have "\<dots> = Some (int (parseDigits 0 p))"
    by (rule parseInt16_digits [OF up ne])
  also have "parseDigits 0 p = parseDigits 0 (map toUpperChar (toString16_nat m) @ [])"
    unfolding p_def padStart_def ds_def toUpperCase_def
    using parseDigits_zeros [of "6 - length (map toUpperChar (toString16_nat m))" "map toUpperChar (toString16_nat m)"]
    by simp
  also have "\<dots> = m"
    by (subst parseDigits_toString) simp
  finally have "hexToNumber (numberToHex n) = Some n"
    using assms(1) by (simp add: m_def)
  then show ?thesis using nh len up by simp
qed

text \<open>The round trip at \<open>0xABCDEF\<close>.\<close>

theorem hex_roundtrip_witness:
  "hexToNumber (numberToHex 0xABCDEF) = Some 0xABCDEF \<and> length (numberToHex 0xABCDEF) = 7"
  using hex_roundtrip [of "0xABCDEF"] by simp

section \<open>Asset manager: a second load while the first is in flight\<close>

lemmas asset_defs = idleLoader_def twoImages_def registerImage_def registerAsset_def
  newAssetManager_def loadAssets_def addToLoadQueue_def loaderStart_def loaderComplete_def
  onLoadComplete_def List.map_filter_def

lemma loadAssets_resets_flag:
  "\<not> isLoading am \<Longrightarrow> \<not> isLoading (fst (snd (loadAssets keys onProgress now (am, ld))))"
  by (simp add: loadAssets_def loaderStart_def loaderComplete_def Let_def
      split: option.splits prod.splits)

text \<open>
  C9. A second \<open>loadAssets\<close> call made while the first one's promise has not settled should
  warn and return without adding anything to the host loader's queue. In the code the first
  call clears \<open>isLoading\<close> in its \<open>finally\<close> block before it returns, although the host
  loader is still running; the second call passes the guard and adds its asset to the
  host loader's queue.
\<close>

theorem second_loadAssets_not_rejected:
  "fst (loadAssets (Some [''a'']) None 0 (twoImages, idleLoader)) = Pending
   \<and> loaderLoading (snd (snd (loadAssets (Some [''a'']) None 0 (twoImages, idleLoader))))
   \<and> \<not> isLoading (fst (snd (loadAssets (Some [''a'']) None 0 (twoImages, idleLoader))))
   \<and> fst (loadAssets (Some [''b'']) None 0
            (snd (loadAssets (Some [''a'']) None 0 (twoImages, idleLoader)))) = QueuedOnly
   \<and> map akey (files (snd (snd (loadAssets (Some [''b'']) None 0
            (snd (loadAssets (Some [''a'']) None 0 (twoImages, idleLoader))))))) = [''a'', ''b'']"
  by (simp add: asset_defs Let_def)

section \<open>Sound manager: the BGM scenario\<close>

lemmas sound_defs = quietScene_def bgmSetup_def registerSound_def defineCategory_def
  newSoundManager_def setupDefaultCategories_def emptyCategoryConfig_def emptySoundConfig_def
  playBGM_def stopBGM_def playSound_def startSound_def mapCategory_def stopSound_def
  updSound_def play_def setVolume_def addTween_def fadeOutSound_def getCategoryBySound_def
  tweenCompleted_def stopTween_def runFadeCallback_def removeFromCategory_def
  getCurrentBGM_def spread_def orElse_def

text \<open>
  C4. In the BGM scenario, \<open>playBGM a\<close> then \<open>playBGM b\<close> should leave \<open>b\<close> recorded as the
  current BGM, also after the fade-out of \<open>a\<close> has completed. In the code, \<open>b\<close> is the
  current BGM right after the second call and \<open>a\<close>'s handle (0) is stopped, but the fade-out
  tween started for \<open>a\<close> (tween 0) is still running with the callback that clears the BGM
  slot; when it completes, the slot is empty although \<open>b\<close>'s handle (1) keeps playing.
\<close>

theorem playBGM_twice_loses_current:
  "getCurrentBGM (playBGM ''b'' None (playBGM ''a'' None bgmSetup)) = Some ''b''
   \<and> bgmSound (playBGM ''b'' None (playBGM ''a'' None bgmSetup)) = Some 1
   \<and> \<not> isPlaying (hsounds (scene (playBGM ''b'' None (playBGM ''a'' None bgmSetup))) ! 0)
   \<and> tweens (scene (playBGM ''b'' None (playBGM ''a'' None bgmSetup)))
       = [\<lparr>ttarget = 0, tvolume = 0, tduration = 1000, tkind = FadeOut ClearBGM, tplaying = True\<rparr>]
   \<and> getCurrentBGM (tweenCompleted 0 (playBGM ''b'' None (playBGM ''a'' None bgmSetup))) = None
   \<and> bgmSound (tweenCompleted 0 (playBGM ''b'' None (playBGM ''a'' None bgmSetup))) = None
   \<and> isPlaying (hsounds (scene (tweenCompleted 0
         (playBGM ''b'' None (playBGM ''a'' None bgmSetup)))) ! 1)"
  by (simp add: sound_defs Let_def)

section \<open>Sound manager: the range of stored volumes\<close>

text \<open>
  C8. Every stored category volume should lie in \<open>[0, 1]\<close> after any sequence of operations,
  \<open>defineCategory\<close> with any configuration included. \<open>setCategoryVolume\<close> clamps the value
  it stores; \<open>defineCategory\<close> stores the caller's value as it is, so a category defined
  with volume 5 has the stored volume 5.
\<close>

theorem defineCategory_stores_unclamped:
  "map_option volume (getCategory ''loud''
       (defineCategory ''loud'' (emptyCategoryConfig\<lparr>ccVolume := Some 5\<rparr>)
          (newSoundManager quietScene None))) = Some 5
   \<and> map_option volume (getCategory ''loud''
       (setCategoryVolume ''loud'' 5
          (defineCategory ''loud'' emptyCategoryConfig (newSoundManager quietScene None)))) = Some 1"
  by (simp add: sound_defs getCategory_def setCategoryVolume_def Clamp_def setVolumes_def Let_def)

section \<open>Sound manager: operations that add no handle\<close>

lemma catLe_refl: "catLe p p"
  by (simp add: catLe_def)

lemma catLe_trans: "catLe r q \<Longrightarrow> catLe q p \<Longrightarrow> catLe r p"
  by (auto simp: catLe_def)

lemma shrinks_refl: "shrinks sm sm"
  by (simp add: shrinks_def list_all2_refl catLe_refl)

lemma shrinks_trans: "shrinks sm3 sm2 \<Longrightarrow> shrinks sm2 sm1 \<Longrightarrow> shrinks sm3 sm1"
  unfolding shrinks_def
  using list_all2_trans [of catLe catLe catLe] catLe_trans by fastforce

lemma shrinks_same:
  "categories sm' = categories sm \<Longrightarrow> length (hsounds (scene sm')) = length (hsounds (scene sm))
     \<Longrightarrow> shrinks sm' sm"
  by (simp add: shrinks_def list_all2_refl catLe_refl)

lemma list_all2_catLe_map:
  "(\<And>p. p \<in> set cats \<Longrightarrow> catLe (g p) p) \<Longrightarrow> list_all2 catLe (map g cats) cats"
  by (induction cats) auto

lemma list_all2_catLe_map_entry:
  "(\<And>c. catLe (k, f c) (k, c)) \<Longrightarrow> list_all2 catLe (AList.map_entry k f cats) cats"
proof (induction cats)
  case Nil
  then show ?case by simp
next
  case (Cons p ps)
  have "catLe (k, f (snd p)) (k, snd p)" by (rule Cons.prems)
  then have "fst p = k \<Longrightarrow> catLe (k, f (snd p)) p" by (cases p) auto
  then show ?case
    using Cons by (auto simp: list_all2_refl catLe_refl)
qed

lemma limits_shrink:
  "list_all2 catLe ys xs \<Longrightarrow> list_all (\<lambda>p. withinLimit (snd p)) xs
     \<Longrightarrow> list_all (\<lambda>p. withinLimit (snd p)) ys"
proof (induction rule: list_all2_induct)
  case Nil
  then show ?case by simp
next
  case (Cons y ys x xs)
  then have "withinLimit (snd x)" by simp
  with Cons.hyps(1) have "withinLimit (snd y)"
    unfolding withinLimit_def catLe_def by force
  with Cons show ?case by simp
qed

lemma shrinks_limits: "limitsHold sm \<Longrightarrow> shrinks sm' sm \<Longrightarrow> limitsHold sm'"
  unfolding limitsHold_def shrinks_def using limits_shrink by blast

lemma handles_shrink:
  "list_all2 catLe ys xs \<Longrightarrow>
     set (concat (map (\<lambda>p. playingSounds (snd p)) ys))
       \<subseteq> set (concat (map (\<lambda>p. playingSounds (snd p)) xs))
     \<and> (distinct (concat (map (\<lambda>p. playingSounds (snd p)) xs))
          \<longrightarrow> distinct (concat (map (\<lambda>p. playingSounds (snd p)) ys)))"
proof (induction rule: list_all2_induct)
  case Nil
  then show ?case by simp
next
  case (Cons y ys x xs)
  from Cons.hyps(1) have sub: "set (playingSounds (snd y)) \<subseteq> set (playingSounds (snd x))"
    and dist: "distinct (playingSounds (snd x)) \<Longrightarrow> distinct (playingSounds (snd y))"
    by (auto simp: catLe_def)
  show ?case
    using Cons.IH sub dist by (simp add: disjoint_iff) blast
qed

lemma shrinks_tracked: "wellTracked sm \<Longrightarrow> shrinks sm' sm \<Longrightarrow> wellTracked sm'"
proof -
  assume wt: "wellTracked sm" and sh: "shrinks sm' sm"
  from sh have l2: "list_all2 catLe (categories sm') (categories sm)"
    and len: "length (hsounds (scene sm)) \<le> length (hsounds (scene sm'))"
    by (auto simp: shrinks_def)
  from handles_shrink [OF l2] wt
  have "distinct (activeHandles sm')" "set (activeHandles sm') \<subseteq> set (activeHandles sm)"
    by (auto simp: wellTracked_def activeHandles_def)
  moreover from wt have "\<forall>h\<in>set (activeHandles sm). h < length (hsounds (scene sm))"
    by (simp add: wellTracked_def list_all_iff)
  ultimately show ?thesis
    using len unfolding wellTracked_def list_all_iff by fastforce
qed

lemma shrinks_map_of:
  assumes "shrinks sm' sm" "map_of (categories sm') nm = Some c'"
  shows "\<exists>c. map_of (categories sm) nm = Some c \<and> catLe (nm, c') (nm, c)"
proof -
  have "list_all2 catLe ys xs \<Longrightarrow> map_of ys nm = Some c'
          \<Longrightarrow> \<exists>c. map_of xs nm = Some c \<and> catLe (nm, c') (nm, c)" for ys xs
  proof (induction rule: list_all2_induct)
    case Nil
    then show ?case by simp
  next
    case (Cons y ys x xs)
    then show ?case
      by (cases y; cases x) (auto simp: catLe_def split: if_splits)
  qed
  then show ?thesis using assms unfolding shrinks_def by blast
qed

subsection \<open>Host calls keep the sound objects in place\<close>

lemma length_updSound [simp]: "length (hsounds (updSound h f sc)) = length (hsounds sc)"
  by (simp add: updSound_def)

lemma length_setVolume [simp]: "length (hsounds (setVolume h v sc)) = length (hsounds sc)"
  by (simp add: setVolume_def)

lemma length_play [simp]: "length (hsounds (play h sc)) = length (hsounds sc)"
  by (simp add: play_def)

lemma length_pauseAll [simp]: "length (hsounds (pauseAll sc)) = length (hsounds sc)"
  by (simp add: pauseAll_def)

lemma length_resumeAll [simp]: "length (hsounds (resumeAll sc)) = length (hsounds sc)"
  by (simp add: resumeAll_def)

lemma hsounds_addTween [simp]: "hsounds (addTween t sc) = hsounds sc"
  by (simp add: addTween_def)

lemma hsounds_stopTween [simp]: "hsounds (stopTween i sc) = hsounds sc"
  by (simp add: stopTween_def)

lemma length_setVolumes [simp]: "length (hsounds (setVolumes hs v sc)) = length (hsounds sc)"
  unfolding setVolumes_def by (induction hs arbitrary: sc) simp_all

lemma length_fold_setVolumes [simp]:
  "length (hsounds (fold (\<lambda>(n, cat). setVolumes (playingSounds cat) (g cat)) cats sc))
     = length (hsounds sc)"
  by (induction cats arbitrary: sc) (simp_all add: case_prod_beta)

subsection \<open>Each operation but \<open>playSound\<close> and \<open>defineCategory\<close> adds no handle\<close>

lemma shrinks_removeFromCategory: "shrinks (removeFromCategory h c sm) sm"
proof -
  have "catLe (case p of (n, cat) \<Rightarrow>
          (n, if cid cat = c then cat\<lparr>playingSounds := remove1 h (playingSounds cat)\<rparr> else cat)) p"
    for p
    using set_remove1_subset [of h]
    by (cases p) (auto simp: catLe_def length_remove1)
  then show ?thesis
    by (simp add: shrinks_def removeFromCategory_def list_all2_catLe_map)
qed

lemma shrinks_stopSound: "shrinks (stopSound h sm) sm"
proof -
  define sm1 where "sm1 = sm\<lparr>scene := updSound h
      (\<lambda>s. s\<lparr>isPlaying := False, isPaused := False, onceStop := None\<rparr>) (scene sm)\<rparr>"
  have 1: "shrinks sm1 sm" by (simp add: sm1_def shrinks_same)
  have 2: "shrinks (removeFromCategory h c sm1) sm" for c
    using shrinks_trans [OF shrinks_removeFromCategory 1] .
  show ?thesis
    unfolding stopSound_def Let_def sm1_def [symmetric]
    using 1 2 by (auto simp: shrinks_refl split: option.splits)
qed

lemma shrinks_soundCompleted: "shrinks (soundCompleted h sm) sm"
proof -
  define sm1 where "sm1 = sm\<lparr>scene := updSound h
      (\<lambda>s. s\<lparr>isPlaying := False, onceComplete := None\<rparr>) (scene sm)\<rparr>"
  have 1: "shrinks sm1 sm" by (simp add: sm1_def shrinks_same)
  have 2: "shrinks (removeFromCategory h c sm1) sm" for c
    using shrinks_trans [OF shrinks_removeFromCategory 1] .
  show ?thesis
    unfolding soundCompleted_def Let_def sm1_def [symmetric]
    using 1 2 by (auto simp: shrinks_refl split: option.splits)
qed

lemma shrinks_fold_stopSound: "shrinks (fold stopSound hs sm) sm"
proof (induction hs arbitrary: sm)
  case Nil
  show ?case by (simp add: shrinks_refl)
next
  case (Cons h hs)
  show ?case
    using shrinks_trans [OF Cons.IH [of "stopSound h sm"] shrinks_stopSound] by simp
qed

lemma shrinks_mapCategory:
  "(\<And>c. catLe (nm, f c) (nm, c)) \<Longrightarrow> shrinks (mapCategory nm f sm) sm"
  by (simp add: shrinks_def mapCategory_def list_all2_catLe_map_entry)

lemma shrinks_fadeOutSound: "shrinks (fadeOutSound h d cb sm) sm"
  by (simp add: fadeOutSound_def shrinks_same)

lemma shrinks_runFadeCallback: "shrinks (runFadeCallback cb sm) sm"
  by (cases cb) (simp_all add: runFadeCallback_def shrinks_same)

lemma shrinks_clearBGM: "shrinks sm' sm \<Longrightarrow> shrinks (sm'\<lparr>bgmSound := None, currentBGM := None\<rparr>) sm"
  by (simp add: shrinks_def)

lemma shrinks_stopBGM: "shrinks (stopBGM sm) sm"
  unfolding stopBGM_def Let_def
  by (auto simp: shrinks_refl shrinks_fadeOutSound shrinks_clearBGM shrinks_stopSound
      split: option.splits)

lemma shrinks_tweenCompleted: "shrinks (tweenCompleted i sm) sm"
proof -
  have 1: "shrinks (sm\<lparr>scene := sc\<rparr>) sm" if "length (hsounds sc) = length (hsounds (scene sm))" for sc
    using that by (simp add: shrinks_same)
  have 2: "shrinks (runFadeCallback cb (stopSound h (sm\<lparr>scene := sc\<rparr>))) sm"
    if "length (hsounds sc) = length (hsounds (scene sm))" for sc cb h
    using shrinks_trans [OF shrinks_runFadeCallback shrinks_trans [OF shrinks_stopSound 1 [OF that]]] .
  show ?thesis
    unfolding tweenCompleted_def Let_def
    by (auto simp: shrinks_refl intro!: 1 2 split: TweenKind.splits)
qed

lemma shrinks_stopCategory: "shrinks (stopCategory nm sm) sm"
proof -
  have "shrinks (mapCategory nm (\<lambda>c. c\<lparr>playingSounds := []\<rparr>) (fold stopSound hs sm)) sm" for hs
    by (rule shrinks_trans [OF shrinks_mapCategory shrinks_fold_stopSound]) (simp add: catLe_def)
  then show ?thesis
    by (simp add: stopCategory_def shrinks_refl split: option.splits)
qed

lemma clearFadeTweens_fold_hsounds:
  "hsounds (fold (\<lambda>(k, i) sc.
      if i < length (tweens sc) \<and> tplaying (tweens sc ! i) then stopTween i sc else sc) ts sc)
   = hsounds sc"
  by (induction ts arbitrary: sc) (simp_all add: case_prod_beta)

lemma shrinks_clearFadeTweens: "shrinks (clearFadeTweens sm) sm"
  by (simp add: clearFadeTweens_def shrinks_same clearFadeTweens_fold_hsounds)

lemma shrinks_stopAll: "shrinks (stopAll sm) sm"
proof -
  define sm1 where "sm1 = hostStopAll sm"
  have 1: "shrinks sm1 sm" by (simp add: sm1_def hostStopAll_def shrinks_fold_stopSound)
  have "catLe (case p of (n, c) \<Rightarrow> (n, c\<lparr>playingSounds := []\<rparr>)) p" for p
    by (cases p) (simp add: catLe_def)
  then have 2: "shrinks (sm1\<lparr>categories := map (\<lambda>(n, c). (n, c\<lparr>playingSounds := []\<rparr>)) (categories sm1),
           currentBGM := None, bgmSound := None\<rparr>) sm1"
    by (simp add: shrinks_def list_all2_catLe_map)
  show ?thesis
    unfolding stopAll_def sm1_def [symmetric]
    using shrinks_trans [OF shrinks_clearFadeTweens shrinks_trans [OF 2 1]] .
qed

lemma shrinks_setCategoryVolume: "shrinks (setCategoryVolume nm v sm) sm"
proof -
  have "shrinks (mapCategory nm (\<lambda>c. c\<lparr>volume := Clamp v 0 1\<rparr>) sm) sm"
    by (rule shrinks_mapCategory) (simp add: catLe_def)
  then show ?thesis
    by (simp add: setCategoryVolume_def Let_def shrinks_def list_all2_refl catLe_refl
        split: option.splits)
qed

lemma shrinks_setGlobalVolume: "shrinks (setGlobalVolume v sm) sm"
  by (simp add: setGlobalVolume_def shrinks_same)

lemma shrinks_setMuted: "shrinks (setMuted b sm) sm"
  by (simp add: setMuted_def shrinks_same)

lemma shrinks_toggleMute: "shrinks (toggleMute sm) sm"
  by (simp add: toggleMute_def shrinks_setMuted)

lemma shrinks_fold_setCategoryVolume:
  "shrinks (fold (\<lambda>(cat, v). setCategoryVolume cat v) vs sm) sm"
proof (induction vs arbitrary: sm)
  case Nil
  show ?case by (simp add: shrinks_refl)
next
  case (Cons p vs)
  show ?case
    using shrinks_trans [OF Cons.IH [of "setCategoryVolume (fst p) (snd p) sm"]
        shrinks_setCategoryVolume]
    by (simp add: case_prod_beta)
qed

lemma shrinks_loadSettings: "shrinks (loadSettings st sm) sm"
  unfolding loadSettings_def
  using shrinks_trans [OF shrinks_fold_setCategoryVolume
      shrinks_trans [OF shrinks_setMuted shrinks_setGlobalVolume]] .

section \<open>Sound manager: the invariants hold after every operation\<close>

subsection \<open>Defining a category\<close>

lemma list_all_update:
  "list_all P xs \<Longrightarrow> P (k, v) \<Longrightarrow> list_all P (AList.update k v xs)"
  by (induction xs) auto

lemma handles_update:
  "playingSounds v = [] \<Longrightarrow>
     set (concat (map (\<lambda>p. playingSounds (snd p)) (AList.update k v xs)))
       \<subseteq> set (concat (map (\<lambda>p. playingSounds (snd p)) xs))
     \<and> (distinct (concat (map (\<lambda>p. playingSounds (snd p)) xs))
          \<longrightarrow> distinct (concat (map (\<lambda>p. playingSounds (snd p)) (AList.update k v xs))))"
  by (induction xs) auto

lemma limitsHold_defineCategory: "limitsHold sm \<Longrightarrow> limitsHold (defineCategory nm cfg sm)"
  by (simp add: limitsHold_def defineCategory_def list_all_update withinLimit_def
      isPositiveInteger_def)

lemma wellTracked_defineCategory: "wellTracked sm \<Longrightarrow> wellTracked (defineCategory nm cfg sm)"
proof -
  assume wt: "wellTracked sm"
  define v where "v = \<lparr>name = nm,
             volume = (case ccVolume cfg of None \<Rightarrow> 1 | Some v \<Rightarrow> v),
             loop = (case ccLoop cfg of None \<Rightarrow> False | Some b \<Rightarrow> b),
             maxConcurrent = (case ccMaxConcurrent cfg of None \<Rightarrow> 5 | Some m \<Rightarrow> m),
             interrupts = (case ccInterrupts cfg of None \<Rightarrow> False | Some b \<Rightarrow> b),
             fadeInDuration = ccFadeInDuration cfg,
             fadeOutDuration = ccFadeOutDuration cfg,
             playingSounds = [],
             cid = nextCid sm\<rparr>"
  have e: "playingSounds v = []" by (simp add: v_def)
  have c: "categories (defineCategory nm cfg sm) = AList.update nm v (categories sm)"
    and s: "scene (defineCategory nm cfg sm) = scene sm"
    by (simp_all add: defineCategory_def v_def)
  from handles_update [OF e, of nm "categories sm"] wt
  show ?thesis
    unfolding wellTracked_def activeHandles_def c s list_all_iff by blast
qed

subsection \<open>Starting a sound\<close>

lemma startSound_categories:
  "categories (snd (startSound k e nm cat cfg sm)) =
     (if addRaises (scene sm) k then categories sm
      else AList.map_entry nm
             (\<lambda>c. c\<lparr>playingSounds := playingSounds c @ [length (hsounds (scene sm))]\<rparr>)
             (categories sm))"
  by (simp add: startSound_def Let_def mapCategory_def split: option.splits)

lemma startSound_length:
  "length (hsounds (scene (snd (startSound k e nm cat cfg sm)))) =
     (if addRaises (scene sm) k then length (hsounds (scene sm))
      else Suc (length (hsounds (scene sm))))"
  by (simp add: startSound_def Let_def mapCategory_def split: option.splits)

lemma list_all_map_entry:
  "list_all P xs \<Longrightarrow> (\<And>v. map_of xs k = Some v \<Longrightarrow> P (k, f v))
     \<Longrightarrow> list_all P (AList.map_entry k f xs)"
  by (induction xs) (auto split: if_splits)

lemma limitsHold_startSound:
  assumes "limitsHold sm"
    and "\<And>c. map_of (categories sm) nm = Some c \<Longrightarrow> isPositiveInteger (maxConcurrent c)
           \<Longrightarrow> real (length (playingSounds c)) + 1 \<le> maxConcurrent c"
  shows "limitsHold (snd (startSound k e nm cat cfg sm))"
proof (cases "addRaises (scene sm) k")
  case True
  then show ?thesis using assms(1) by (simp add: limitsHold_def startSound_categories)
next
  case False
  have "list_all (\<lambda>p. withinLimit (snd p)) (AList.map_entry nm
          (\<lambda>c. c\<lparr>playingSounds := playingSounds c @ [length (hsounds (scene sm))]\<rparr>)
          (categories sm))"
  proof (rule list_all_map_entry)
    show "list_all (\<lambda>p. withinLimit (snd p)) (categories sm)"
      using assms(1) by (simp add: limitsHold_def)
  next
    fix c assume "map_of (categories sm) nm = Some c"
    from assms(2) [OF this]
    show "withinLimit (snd (nm, c\<lparr>playingSounds := playingSounds c @ [length (hsounds (scene sm))]\<rparr>))"
      by (auto simp: withinLimit_def add.commute)
  qed
  then show ?thesis using False by (simp add: limitsHold_def startSound_categories)
qed

lemma handles_map_entry_append:
  "set (concat (map (\<lambda>p. playingSounds (snd p))
          (AList.map_entry k (\<lambda>c. c\<lparr>playingSounds := playingSounds c @ [h]\<rparr>) xs)))
     \<subseteq> insert h (set (concat (map (\<lambda>p. playingSounds (snd p)) xs)))
   \<and> (h \<notin> set (concat (map (\<lambda>p. playingSounds (snd p)) xs))
        \<longrightarrow> distinct (concat (map (\<lambda>p. playingSounds (snd p)) xs))
        \<longrightarrow> distinct (concat (map (\<lambda>p. playingSounds (snd p))
              (AList.map_entry k (\<lambda>c. c\<lparr>playingSounds := playingSounds c @ [h]\<rparr>) xs))))"
  by (induction xs) auto

lemma wellTracked_startSound:
  assumes "wellTracked sm"
  shows "wellTracked (snd (startSound k e nm cat cfg sm))"
proof (cases "addRaises (scene sm) k")
  case True
  then show ?thesis
    using assms
    by (simp add: wellTracked_def activeHandles_def startSound_categories startSound_length)
next
  case False
  define h where "h = length (hsounds (scene sm))"
  have fresh: "h \<notin> set (activeHandles sm)"
    using assms by (auto simp: wellTracked_def list_all_iff h_def)
  from handles_map_entry_append [of k h "categories sm" for k] fresh assms
  show ?thesis
    using False
    unfolding wellTracked_def activeHandles_def startSound_categories startSound_length
      list_all_iff h_def [symmetric]
    by (simp add: subset_iff less_Suc_eq) blast
qed

subsection \<open>Playing a sound\<close>

lemma room_for_one:
  assumes "isPositiveInteger m" "real n < m"
  shows "real n + 1 \<le> m"
proof -
  from assms(1) have m: "m = real_of_int \<lfloor>m\<rfloor>" by (auto simp: isPositiveInteger_def)
  with assms(2) have "int n < \<lfloor>m\<rfloor>" by linarith
  then have "int n + 1 \<le> \<lfloor>m\<rfloor>" by simp
  then have "real_of_int (int n + 1) \<le> real_of_int \<lfloor>m\<rfloor>" by (simp only: of_int_le_iff)
  with m show ?thesis by simp
qed

lemma map_of_list_all:
  "list_all P xs \<Longrightarrow> map_of xs k = Some v \<Longrightarrow> P (k, v)"
  by (induction xs) (auto split: if_splits)

lemma shrinks_evict:
  "shrinks (case hs of [] \<Rightarrow> mapCategory nm (\<lambda>c. c\<lparr>playingSounds := tl (playingSounds c)\<rparr>) sm
            | oldestSound # x \<Rightarrow> stopSound oldestSound
                (mapCategory nm (\<lambda>c. c\<lparr>playingSounds := tl (playingSounds c)\<rparr>) sm)) sm"
proof -
  have tl_sub: "set (tl xs) \<subseteq> set xs" for xs :: "handle list"
    by (cases xs) auto
  have 1: "shrinks (mapCategory nm (\<lambda>c. c\<lparr>playingSounds := tl (playingSounds c)\<rparr>) sm) sm"
    by (rule shrinks_mapCategory) (simp add: catLe_def distinct_tl tl_sub)
  show ?thesis
    using 1 shrinks_trans [OF shrinks_stopSound 1] by (cases hs) simp_all
qed

lemma limitsHold_playSound:
  assumes "limitsHold sm"
  shows "limitsHold (snd (playSound k cfg sm))"
proof -
  {
    fix e :: SoundEntry and cat :: SoundCategory
    assume cat: "map_of (categories sm) (category e) = Some cat"
      and full: "maxConcurrent cat \<le> real (length (playingSounds cat))"
    define nm where "nm = category e"
    define sm1 where "sm1 = mapCategory nm (\<lambda>c. c\<lparr>playingSounds := tl (playingSounds c)\<rparr>) sm"
    define sm2 where "sm2 = (case playingSounds cat of [] \<Rightarrow> sm1
                             | oldestSound # x \<Rightarrow> stopSound oldestSound sm1)"
    have s21: "shrinks sm2 sm1"
      by (cases "playingSounds cat") (simp_all add: sm2_def shrinks_refl shrinks_stopSound)
    have s2: "shrinks sm2 sm"
      unfolding sm2_def sm1_def by (rule shrinks_evict)
    have l2: "limitsHold sm2" using shrinks_limits [OF assms s2] .
    have m1: "map_of (categories sm1) nm = Some (cat\<lparr>playingSounds := tl (playingSounds cat)\<rparr>)"
      using cat by (simp add: sm1_def mapCategory_def map_of_map_entry nm_def)
    have wl: "withinLimit cat"
      using map_of_list_all [OF _ cat, of "\<lambda>p. withinLimit (snd p)"] assms
      by (simp add: limitsHold_def)
    have "limitsHold (snd (startSound k e nm cat cfg sm2))"
    proof (rule limitsHold_startSound [OF l2])
      fix c2
      assume c2: "map_of (categories sm2) nm = Some c2"
        and pos: "isPositiveInteger (maxConcurrent c2)"
      from shrinks_map_of [OF s21 c2] m1
      have le: "catLe (nm, c2) (nm, cat\<lparr>playingSounds := tl (playingSounds cat)\<rparr>)" by simp
      then have mc: "maxConcurrent c2 = maxConcurrent cat"
        and len: "length (playingSounds c2) \<le> length (playingSounds cat) - 1"
        by (simp_all add: catLe_def)
      from pos mc have pc: "isPositiveInteger (maxConcurrent cat)" by simp
      with wl have up: "real (length (playingSounds cat)) \<le> maxConcurrent cat"
        by (simp add: withinLimit_def)
      from pc full have "0 < length (playingSounds cat)"
        by (cases "playingSounds cat") (simp_all add: isPositiveInteger_def)
      with len have "real (length (playingSounds c2)) + 1 \<le> real (length (playingSounds cat))"
        by linarith
      with up mc show "real (length (playingSounds c2)) + 1 \<le> maxConcurrent c2" by simp
    qed
    then have "limitsHold (snd (startSound k e (category e) cat cfg
        (case playingSounds cat of
           [] \<Rightarrow> mapCategory (category e) (\<lambda>c. c\<lparr>playingSounds := tl (playingSounds c)\<rparr>) sm
         | oldestSound # x \<Rightarrow> stopSound oldestSound
             (mapCategory (category e) (\<lambda>c. c\<lparr>playingSounds := tl (playingSounds c)\<rparr>) sm))))"
      unfolding sm2_def sm1_def nm_def .
  }
  note evict = this
  {
    fix e :: SoundEntry and cat :: SoundCategory
    assume cat: "map_of (categories sm) (category e) = Some cat"
      and room: "\<not> maxConcurrent cat \<le> real (length (playingSounds cat))"
    have "limitsHold (snd (startSound k e (category e) cat cfg sm))"
    proof (rule limitsHold_startSound [OF assms])
      fix c
      assume "map_of (categories sm) (category e) = Some c"
        and pos: "isPositiveInteger (maxConcurrent c)"
      with cat have "c = cat" by simp
      with pos room show "real (length (playingSounds c)) + 1 \<le> maxConcurrent c"
        using room_for_one [of "maxConcurrent cat" "length (playingSounds cat)"] by simp
    qed
  }
  note fresh = this
  show ?thesis
    unfolding playSound_def Let_def
    using assms evict fresh by (simp split: option.splits)
qed

lemma wellTracked_playSound:
  assumes "wellTracked sm"
  shows "wellTracked (snd (playSound k cfg sm))"
proof -
  have "wellTracked (snd (startSound k e nm cat cfg
        (case hs of
           [] \<Rightarrow> mapCategory nm (\<lambda>c. c\<lparr>playingSounds := tl (playingSounds c)\<rparr>) sm
         | oldestSound # x \<Rightarrow> stopSound oldestSound
             (mapCategory nm (\<lambda>c. c\<lparr>playingSounds := tl (playingSounds c)\<rparr>) sm))))"
    for e :: SoundEntry and nm cat hs
    by (rule wellTracked_startSound [OF shrinks_tracked [OF assms shrinks_evict]])
  then show ?thesis
    unfolding playSound_def Let_def
    using assms by (simp add: wellTracked_startSound split: option.splits)
qed

subsection \<open>The other operations\<close>

lemma limitsHold_playBGM: "limitsHold sm \<Longrightarrow> limitsHold (playBGM k cfg sm)"
proof -
  assume "limitsHold sm"
  then have "limitsHold (snd (playSound k cfg (stopBGM sm)))"
    using limitsHold_playSound shrinks_limits shrinks_stopBGM by blast
  then show ?thesis
    by (cases "playSound k cfg (stopBGM sm)")
       (auto simp: playBGM_def limitsHold_def split: option.splits)
qed

lemma wellTracked_playBGM: "wellTracked sm \<Longrightarrow> wellTracked (playBGM k cfg sm)"
proof -
  assume "wellTracked sm"
  then have "wellTracked (snd (playSound k cfg (stopBGM sm)))"
    using wellTracked_playSound shrinks_tracked shrinks_stopBGM by blast
  then show ?thesis
    by (cases "playSound k cfg (stopBGM sm)")
       (auto simp: playBGM_def wellTracked_def activeHandles_def split: option.splits)
qed

lemma registerSound_categories:
  "categories (registerSound k cat p cfg sm) =
     categories (if map_of (categories sm) cat = None
                 then defineCategory cat emptyCategoryConfig sm else sm)"
  by (auto simp: registerSound_def Let_def split: option.splits)

lemma registerSound_scene: "scene (registerSound k cat p cfg sm) = scene sm"
  by (auto simp: registerSound_def Let_def defineCategory_def split: option.splits)

lemma limitsHold_registerSound: "limitsHold sm \<Longrightarrow> limitsHold (registerSound k cat p cfg sm)"
proof -
  assume a: "limitsHold sm"
  have "limitsHold (if map_of (categories sm) cat = None
                    then defineCategory cat emptyCategoryConfig sm else sm)"
    using a by (simp add: limitsHold_defineCategory)
  then show ?thesis
    unfolding limitsHold_def registerSound_categories .
qed

lemma wellTracked_registerSound: "wellTracked sm \<Longrightarrow> wellTracked (registerSound k cat p cfg sm)"
proof -
  assume a: "wellTracked sm"
  have "wellTracked (if map_of (categories sm) cat = None
                     then defineCategory cat emptyCategoryConfig sm else sm)"
    using a by (simp add: wellTracked_defineCategory)
  moreover have "scene (if map_of (categories sm) cat = None
                     then defineCategory cat emptyCategoryConfig sm else sm) = scene sm"
    by (simp add: defineCategory_def)
  ultimately show ?thesis
    unfolding wellTracked_def activeHandles_def registerSound_categories registerSound_scene
    by simp
qed

lemma limitsHold_dispose: "limitsHold (dispose sm)"
  by (simp add: dispose_def Let_def limitsHold_def)

lemma wellTracked_dispose: "wellTracked (dispose sm)"
  by (simp add: dispose_def Let_def wellTracked_def activeHandles_def)

lemma shrinks_or_known:
  "(\<exists>nm cfg. op = DefineCategory nm cfg) \<or> (\<exists>k cat p cfg. op = RegisterSound k cat p cfg)
   \<or> (\<exists>k cfg. op = PlaySound k cfg) \<or> (\<exists>k cfg. op = PlayBGM k cfg) \<or> op = Dispose
   \<or> (op = SceneDestroy \<and> eventsAttached (scene sm))
   \<or> shrinks (exec op sm) sm"
  by (cases op)
     (simp_all add: shrinks_refl shrinks_stopBGM shrinks_fadeOutSound shrinks_stopCategory
        shrinks_stopAll
        shrinks_setCategoryVolume shrinks_setGlobalVolume shrinks_setMuted shrinks_toggleMute
        shrinks_loadSettings shrinks_soundCompleted shrinks_stopSound shrinks_tweenCompleted
        shrinks_same)

lemma limitsHold_exec: "limitsHold sm \<Longrightarrow> limitsHold (exec op sm)"
  using shrinks_or_known [of op sm]
  by (auto simp: limitsHold_defineCategory limitsHold_registerSound limitsHold_playSound
      limitsHold_playBGM limitsHold_dispose intro: shrinks_limits)

lemma wellTracked_exec: "wellTracked sm \<Longrightarrow> wellTracked (exec op sm)"
  using shrinks_or_known [of op sm]
  by (auto simp: wellTracked_defineCategory wellTracked_registerSound wellTracked_playSound
      wellTracked_playBGM wellTracked_dispose intro: shrinks_tracked)

lemma limitsHold_run: "limitsHold sm \<Longrightarrow> limitsHold (run ops sm)"
  unfolding run_def by (induction ops arbitrary: sm) (simp_all add: limitsHold_exec)

lemma wellTracked_run: "wellTracked sm \<Longrightarrow> wellTracked (run ops sm)"
  unfolding run_def by (induction ops arbitrary: sm) (simp_all add: wellTracked_exec)

lemma limitsHold_new: "limitsHold (newSoundManager sc am)"
  by (simp add: newSoundManager_def setupDefaultCategories_def defineCategory_def
      emptyCategoryConfig_def limitsHold_def withinLimit_def)

lemma wellTracked_new: "wellTracked (newSoundManager sc am)"
  by (simp add: newSoundManager_def setupDefaultCategories_def defineCategory_def
      emptyCategoryConfig_def wellTracked_def activeHandles_def)

subsection \<open>The concurrency limit\<close>

text \<open>
  C1. After any sequence of registry operations and host signals on a new registry, every
  category whose \<open>maxConcurrent\<close> is a positive integer has at most \<open>maxConcurrent\<close>
  handles in its active list.
\<close>

theorem active_within_maxConcurrent:
  "\<forall>p\<in>set (categories (run ops (newSoundManager sc am))).
     isPositiveInteger (maxConcurrent (snd p))
       \<longrightarrow> real (length (playingSounds (snd p))) \<le> maxConcurrent (snd p)"
  using limitsHold_run [OF limitsHold_new, of ops sc am]
  by (simp add: limitsHold_def withinLimit_def list_all_iff)

text \<open>
  The limit at work: \<open>voice\<close> has the limit 1 and interrupts; after two plays of a voice
  sound its active list holds one handle.
\<close>

theorem active_within_maxConcurrent_witness:
  "\<exists>p\<in>set (categories (run [RegisterSound ''a'' ''voice'' [''a.mp3''] None,
                PlaySound ''a'' None, PlaySound ''a'' None] (newSoundManager quietScene None))).
     fst p = ''voice'' \<and> isPositiveInteger (maxConcurrent (snd p))
     \<and> playingSounds (snd p) = [1]
     \<and> real (length (playingSounds (snd p))) \<le> maxConcurrent (snd p)"
  using active_within_maxConcurrent [of "[RegisterSound ''a'' ''voice'' [''a.mp3''] None,
                PlaySound ''a'' None, PlaySound ''a'' None]" quietScene None]
  by (simp add: run_def sound_defs Let_def isPositiveInteger_def)

section \<open>Sound manager: when \<open>playSound\<close> does nothing\<close>

lemma addRaises_updSound [simp]: "addRaises (updSound h f sc) = addRaises sc"
  by (simp add: updSound_def)

lemma addRaises_removeFromCategory [simp]:
  "addRaises (scene (removeFromCategory h c sm)) = addRaises (scene sm)"
  by (simp add: removeFromCategory_def)

lemma addRaises_stopSound [simp]: "addRaises (scene (stopSound h sm)) = addRaises (scene sm)"
  by (simp add: stopSound_def Let_def split: option.splits)

lemma addRaises_mapCategory [simp]: "addRaises (scene (mapCategory nm f sm)) = addRaises (scene sm)"
  by (simp add: mapCategory_def)


lemma playSound_muted: "isMuted sm \<Longrightarrow> playSound k cfg sm = (None, sm)"
  by (simp add: playSound_def)









section \<open>Sound manager: muting\<close>

lemma pause_resume: "isPlaying s \<Longrightarrow> resumeSound (pauseSound s) = s"
  by (cases s) (simp add: resumeSound_def pauseSound_def)

lemma im_removeFromCategory [simp]: "isMuted (removeFromCategory h c sm) = isMuted sm"
  by (simp add: removeFromCategory_def)

lemma im_stopSound [simp]: "isMuted (stopSound h sm) = isMuted sm"
  by (simp add: stopSound_def Let_def split: option.splits)

lemma im_soundCompleted [simp]: "isMuted (soundCompleted h sm) = isMuted sm"
  by (simp add: soundCompleted_def Let_def split: option.splits)

lemma im_fold_stopSound [simp]: "isMuted (fold stopSound hs sm) = isMuted sm"
  by (induction hs arbitrary: sm) simp_all

lemma im_mapCategory [simp]: "isMuted (mapCategory nm f sm) = isMuted sm"
  by (simp add: mapCategory_def)

lemma im_runFadeCallback [simp]: "isMuted (runFadeCallback cb sm) = isMuted sm"
  by (cases cb) (simp_all add: runFadeCallback_def)

lemma im_stopBGM [simp]: "isMuted (stopBGM sm) = isMuted sm"
  by (simp add: stopBGM_def fadeOutSound_def Let_def split: option.splits)

lemma im_tweenCompleted [simp]: "isMuted (tweenCompleted i sm) = isMuted sm"
  by (simp add: tweenCompleted_def Let_def split: TweenKind.splits)

lemma im_stopCategory [simp]: "isMuted (stopCategory nm sm) = isMuted sm"
  by (simp add: stopCategory_def split: option.splits)

lemma im_stopAll [simp]: "isMuted (stopAll sm) = isMuted sm"
  by (simp add: stopAll_def hostStopAll_def clearFadeTweens_def)

lemma im_playSound [simp]: "isMuted (snd (playSound k cfg sm)) = isMuted sm"
  by (simp add: playSound_def startSound_def Let_def split: option.splits list.splits)

lemma im_playBGM [simp]: "isMuted (playBGM k cfg sm) = isMuted sm"
proof -
  have "isMuted (snd (playSound k cfg (stopBGM sm))) = isMuted sm" by simp
  then show ?thesis
    by (cases "playSound k cfg (stopBGM sm)") (auto simp: playBGM_def split: option.splits)
qed

lemma im_exec: "\<not> writesMute op \<Longrightarrow> isMuted (exec op sm) = isMuted sm"
  by (cases op)
     (simp_all add: defineCategory_def registerSound_def Let_def setCategoryVolume_def
        setGlobalVolume_def fadeOutSound_def dispose_def clearFadeTweens_def
        split: option.splits)

lemma im_run: "\<forall>op\<in>set ops. \<not> writesMute op \<Longrightarrow> isMuted (run ops sm) = isMuted sm"
  unfolding run_def by (induction ops arbitrary: sm) (simp_all add: im_exec)

text \<open>
  C7. While the registry is muted, \<open>playSound\<close> returns the no-op signal and changes
  nothing, and a muted registry stays muted through every sequence of operations that
  does not write the mute flag. Muting sets the flag and pauses at the host: a sound that was playing is
  paused, not stopped, and nothing else about any sound object changes; the categories
  with their active lists and the BGM slot stay as they are. Unmuting clears the flag and
  resumes: every sound that was playing before the mute is as it was.
\<close>

theorem mute_pauses_and_blocks:
  "(isMuted sm \<longrightarrow> playSound k cfg sm = (None, sm))
   \<and> ((\<forall>op\<in>set ops. \<not> writesMute op)
        \<longrightarrow> playSound k cfg (run ops (setMuted True sm)) = (None, run ops (setMuted True sm)))
   \<and> isMuted (setMuted True sm)
   \<and> categories (setMuted True sm) = categories sm
   \<and> currentBGM (setMuted True sm) = currentBGM sm
   \<and> bgmSound (setMuted True sm) = bgmSound sm
   \<and> length (hsounds (scene (setMuted True sm))) = length (hsounds (scene sm))
   \<and> (\<forall>h < length (hsounds (scene sm)).
        hsounds (scene (setMuted True sm)) ! h =
          (if isPlaying (hsounds (scene sm) ! h) \<and> \<not> isPaused (hsounds (scene sm) ! h)
           then (hsounds (scene sm) ! h)\<lparr>isPlaying := False, isPaused := True\<rparr>
           else hsounds (scene sm) ! h))
   \<and> \<not> isMuted (setMuted False (setMuted True sm))
   \<and> categories (setMuted False (setMuted True sm)) = categories sm
   \<and> currentBGM (setMuted False (setMuted True sm)) = currentBGM sm
   \<and> bgmSound (setMuted False (setMuted True sm)) = bgmSound sm
   \<and> (\<forall>h < length (hsounds (scene sm)).
        isPlaying (hsounds (scene sm) ! h)
          \<longrightarrow> hsounds (scene (setMuted False (setMuted True sm))) ! h = hsounds (scene sm) ! h)"
proof -
  have resumed: "\<forall>h < length (hsounds (scene sm)).
        isPlaying (hsounds (scene sm) ! h)
          \<longrightarrow> hsounds (scene (setMuted False (setMuted True sm))) ! h = hsounds (scene sm) ! h"
    by (simp add: setMuted_def pauseAll_def resumeAll_def pause_resume)
  have paused: "\<forall>h < length (hsounds (scene sm)).
        hsounds (scene (setMuted True sm)) ! h =
          (if isPlaying (hsounds (scene sm) ! h) \<and> \<not> isPaused (hsounds (scene sm) ! h)
           then (hsounds (scene sm) ! h)\<lparr>isPlaying := False, isPaused := True\<rparr>
           else hsounds (scene sm) ! h)"
    by (auto simp: setMuted_def pauseAll_def pauseSound_def)
  have rest: "isMuted (setMuted True sm)"
    "categories (setMuted True sm) = categories sm"
    "currentBGM (setMuted True sm) = currentBGM sm"
    "bgmSound (setMuted True sm) = bgmSound sm"
    "length (hsounds (scene (setMuted True sm))) = length (hsounds (scene sm))"
    "\<not> isMuted (setMuted False (setMuted True sm))"
    "categories (setMuted False (setMuted True sm)) = categories sm"
    "currentBGM (setMuted False (setMuted True sm)) = currentBGM sm"
    "bgmSound (setMuted False (setMuted True sm)) = bgmSound sm"
    by (simp_all add: setMuted_def)
  have later: "(\<forall>op\<in>set ops. \<not> writesMute op)
        \<longrightarrow> playSound k cfg (run ops (setMuted True sm)) = (None, run ops (setMuted True sm))"
    using rest(1) by (auto simp: im_run intro: playSound_muted)
  show ?thesis
    using resumed paused rest later playSound_muted [of sm k cfg] by blast
qed

text \<open>
  Muting at work: with \<open>a\<close> playing as handle 0, the muted registry refuses \<open>b\<close>, handle 0
  is paused and still tracked, and unmuting makes it play again.
\<close>

theorem mute_pauses_and_blocks_witness:
  "isPlaying (hsounds (scene playingSetup) ! 0)
   \<and> fst (playSound ''b'' None (run [StopCategory ''ui'', SetGlobalVolume 1]
            (setMuted True playingSetup))) = None
   \<and> isMuted (setMuted True playingSetup)
   \<and> playSound ''b'' None (setMuted True playingSetup) = (None, setMuted True playingSetup)
   \<and> isPaused (hsounds (scene (setMuted True playingSetup)) ! 0)
   \<and> \<not> isPlaying (hsounds (scene (setMuted True playingSetup)) ! 0)
   \<and> map_option playingSounds (map_of (categories (setMuted True playingSetup)) ''bgm'') = Some [0]
   \<and> isPlaying (hsounds (scene (setMuted False (setMuted True playingSetup))) ! 0)"
proof -
  have p: "isPlaying (hsounds (scene playingSetup) ! 0)"
    "\<not> isPaused (hsounds (scene playingSetup) ! 0)"
    "0 < length (hsounds (scene playingSetup))"
    "map_option playingSounds (map_of (categories playingSetup) ''bgm'') = Some [0]"
    by (simp_all add: playingSetup_def sound_defs Let_def)
  show ?thesis
    using mute_pauses_and_blocks [of "setMuted True playingSetup" "''b''" None "[]"]
      mute_pauses_and_blocks [of playingSetup "''b''" None
        "[StopCategory ''ui'', SetGlobalVolume 1]"] p
    by simp
qed

section \<open>Sound manager: volume propagation\<close>

lemma nth_setVolume:
  "hsounds (setVolume h v sc) ! i =
     (if i = h \<and> h < length (hsounds sc) then (hsounds sc ! h)\<lparr>svolume := v\<rparr>
      else hsounds sc ! i)"
  by (cases "h < length (hsounds sc)")
     (auto simp: setVolume_def updSound_def nth_list_update list_update_beyond)

lemma setVolumes_other:
  "h \<notin> set hs \<Longrightarrow> hsounds (setVolumes hs v sc) ! h = hsounds sc ! h"
  unfolding setVolumes_def
  by (induction hs arbitrary: sc) (auto simp: nth_setVolume)

lemma setVolumes_sets:
  "h \<in> set hs \<Longrightarrow> h < length (hsounds sc) \<Longrightarrow> svolume (hsounds (setVolumes hs v sc) ! h) = v"
  unfolding setVolumes_def
proof (induction hs arbitrary: sc)
  case Nil
  then show ?case by simp
next
  case (Cons a hs)
  show ?case
  proof (cases "h \<in> set hs")
    case True
    then show ?thesis using Cons.IH [of "setVolume a v sc"] Cons.prems by simp
  next
    case False
    with Cons.prems have "a = h" by simp
    then show ?thesis
      using setVolumes_other [OF False, of v "setVolume h v sc"] Cons.prems
      by (simp add: setVolumes_def nth_setVolume)
  qed
qed

lemma fold_setVolumes_other:
  "h \<notin> set (concat (map (\<lambda>p. playingSounds (snd p)) cats)) \<Longrightarrow>
     hsounds (fold (\<lambda>a. setVolumes (playingSounds (snd a)) (g (snd a))) cats sc) ! h
       = hsounds sc ! h"
  by (induction cats arbitrary: sc) (simp_all add: setVolumes_other)

lemma fold_setVolumes_sets:
  assumes "distinct (concat (map (\<lambda>p. playingSounds (snd p)) cats))"
    and "\<forall>h\<in>set (concat (map (\<lambda>p. playingSounds (snd p)) cats)). h < length (hsounds sc)"
    and "p \<in> set cats" "h \<in> set (playingSounds (snd p))"
  shows "svolume (hsounds (fold (\<lambda>a. setVolumes (playingSounds (snd a)) (g (snd a))) cats sc) ! h)
           = g (snd p)"
  using assms
proof (induction cats arbitrary: sc)
  case Nil
  then show ?case by simp
next
  case (Cons q qs)
  let ?sc = "setVolumes (playingSounds (snd q)) (g (snd q)) sc"
  show ?case
  proof (cases "h \<in> set (playingSounds (snd q))")
    case True
    with Cons.prems(1) have out: "h \<notin> set (concat (map (\<lambda>p. playingSounds (snd p)) qs))"
      by auto
    have pq: "snd p = snd q"
    proof (cases "p = q")
      case True
      then show ?thesis by simp
    next
      case False
      with Cons.prems(3) have "p \<in> set qs" by simp
      with Cons.prems(4) have "h \<in> set (concat (map (\<lambda>p. playingSounds (snd p)) qs))"
        by auto
      with out show ?thesis by simp
    qed
    have "h < length (hsounds sc)" using True Cons.prems(2) by simp
    then have "svolume (hsounds ?sc ! h) = g (snd q)"
      using setVolumes_sets [OF True] by simp
    then show ?thesis
      using fold_setVolumes_other [OF out, of g ?sc] pq by simp
  next
    case False
    with Cons.prems(3,4) have "p \<in> set qs" by auto
    moreover have "distinct (concat (map (\<lambda>p. playingSounds (snd p)) qs))"
      using Cons.prems(1) by simp
    moreover have "\<forall>h\<in>set (concat (map (\<lambda>p. playingSounds (snd p)) qs)). h < length (hsounds ?sc)"
      using Cons.prems(2) by simp
    ultimately show ?thesis
      using Cons.IH [of ?sc] Cons.prems(4) by simp
  qed
qed

lemma setGlobalVolume_tracked:
  assumes "wellTracked sm" "p \<in> set (categories sm)" "h \<in> set (playingSounds (snd p))"
  shows "svolume (hsounds (scene (setGlobalVolume v sm)) ! h) = volume (snd p) * Clamp v 0 1"
proof -
  from assms(1) have d: "distinct (concat (map (\<lambda>p. playingSounds (snd p)) (categories sm)))"
    and b: "\<forall>h\<in>set (concat (map (\<lambda>p. playingSounds (snd p)) (categories sm))).
              h < length (hsounds (scene sm))"
    by (simp_all add: wellTracked_def activeHandles_def list_all_iff)
  show ?thesis
    using fold_setVolumes_sets [OF d b assms(2,3), of "\<lambda>cat. volume cat * Clamp v 0 1"]
    by (simp add: setGlobalVolume_def case_prod_unfold)
qed

lemma map_of_in_set: "map_of xs k = Some v \<Longrightarrow> (k, v) \<in> set xs"
  by (rule map_of_SomeD)

lemma setCategoryVolume_stored:
  "map_of (categories (setCategoryVolume nm v sm)) nm = Some c \<Longrightarrow> volume c = Clamp v 0 1"
  by (auto simp: setCategoryVolume_def Let_def mapCategory_def map_of_map_entry
      split: option.splits)

lemma Clamp_half: "Clamp (1 / 2) 0 1 = 1 / 2"
  by (simp add: Clamp_def)

text \<open>
  C6. In every state a new registry can reach, \<open>setGlobalVolume v\<close> stores
  \<open>Clamp v 0 1\<close> as the global volume, leaves the categories as they are, and sets the
  volume of every active handle of every category to the category's volume times
  \<open>Clamp v 0 1\<close>. After \<open>setCategoryVolume ui 0.5\<close> and \<open>setGlobalVolume 0.5\<close>, every
  active \<open>ui\<close> handle has the volume 0.25.
\<close>

theorem setGlobalVolume_effective:
  "globalVolume (setGlobalVolume v (run ops (newSoundManager sc am))) = Clamp v 0 1
   \<and> categories (setGlobalVolume v (run ops (newSoundManager sc am)))
        = categories (run ops (newSoundManager sc am))
   \<and> (\<forall>p\<in>set (categories (run ops (newSoundManager sc am))).
         \<forall>h\<in>set (playingSounds (snd p)).
           svolume (hsounds (scene (setGlobalVolume v (run ops (newSoundManager sc am)))) ! h)
             = volume (snd p) * Clamp v 0 1)
   \<and> (\<forall>c. map_of (categories (setGlobalVolume (1 / 2) (setCategoryVolume ''ui'' (1 / 2)
                (run ops (newSoundManager sc am))))) ''ui'' = Some c
         \<longrightarrow> (\<forall>h\<in>set (playingSounds c).
                svolume (hsounds (scene (setGlobalVolume (1 / 2) (setCategoryVolume ''ui'' (1 / 2)
                  (run ops (newSoundManager sc am))))) ! h) = 1 / 4))"
proof -
  define sm where "sm = run ops (newSoundManager sc am)"
  define sm1 where "sm1 = setCategoryVolume ''ui'' (1 / 2) sm"
  have wt: "wellTracked sm"
    unfolding sm_def by (rule wellTracked_run [OF wellTracked_new])
  have wt1: "wellTracked sm1"
    unfolding sm1_def by (rule shrinks_tracked [OF wt shrinks_setCategoryVolume])
  have cats: "categories (setGlobalVolume w s) = categories s" for w s
    by (simp add: setGlobalVolume_def)
  have a: "globalVolume (setGlobalVolume v sm) = Clamp v 0 1"
    by (simp add: setGlobalVolume_def)
  have b: "\<forall>p\<in>set (categories sm). \<forall>h\<in>set (playingSounds (snd p)).
           svolume (hsounds (scene (setGlobalVolume v sm)) ! h) = volume (snd p) * Clamp v 0 1"
    using setGlobalVolume_tracked [OF wt] by blast
  have c: "\<forall>c. map_of (categories (setGlobalVolume (1 / 2) sm1)) ''ui'' = Some c
         \<longrightarrow> (\<forall>h\<in>set (playingSounds c).
                svolume (hsounds (scene (setGlobalVolume (1 / 2) sm1)) ! h) = 1 / 4)"
  proof (intro allI impI ballI)
    fix c h
    assume m: "map_of (categories (setGlobalVolume (1 / 2) sm1)) ''ui'' = Some c"
      and h: "h \<in> set (playingSounds c)"
    from m have m1: "map_of (categories sm1) ''ui'' = Some c" by (simp add: cats)
    then have vol: "volume c = 1 / 2"
      using setCategoryVolume_stored [of "''ui''" "1 / 2" sm c] by (simp add: sm1_def Clamp_half)
    from m1 have "(''ui'', c) \<in> set (categories sm1)" by (rule map_of_in_set)
    from setGlobalVolume_tracked [OF wt1 this, of h "1 / 2"] h vol
    show "svolume (hsounds (scene (setGlobalVolume (1 / 2) sm1)) ! h) = 1 / 4"
      by (simp add: Clamp_half)
  qed
  show ?thesis
    using a b c cats [of v sm] unfolding sm1_def sm_def by blast
qed

text \<open>
  Volume propagation at work: two \<open>ui\<close> sounds are playing (handles 0 and 1); after the
  two setters both read 0.25.
\<close>

theorem setGlobalVolume_effective_witness:
  "map_option playingSounds (map_of (categories (setGlobalVolume (1 / 2)
      (setCategoryVolume ''ui'' (1 / 2) (run uiOps (newSoundManager quietScene None))))) ''ui'')
     = Some [0, 1]
   \<and> svolume (hsounds (scene (setGlobalVolume (1 / 2) (setCategoryVolume ''ui'' (1 / 2)
        (run uiOps (newSoundManager quietScene None))))) ! 0) = 1 / 4
   \<and> svolume (hsounds (scene (setGlobalVolume (1 / 2) (setCategoryVolume ''ui'' (1 / 2)
        (run uiOps (newSoundManager quietScene None))))) ! 1) = 1 / 4"
proof -
  have m: "map_option playingSounds (map_of (categories (setGlobalVolume (1 / 2)
      (setCategoryVolume ''ui'' (1 / 2) (run uiOps (newSoundManager quietScene None))))) ''ui'')
     = Some [0, 1]"
    by (simp add: uiOps_def run_def sound_defs setGlobalVolume_def setCategoryVolume_def
        map_of_map_entry Let_def)
  then obtain c where c: "map_of (categories (setGlobalVolume (1 / 2)
      (setCategoryVolume ''ui'' (1 / 2) (run uiOps (newSoundManager quietScene None))))) ''ui''
     = Some c" and pl: "playingSounds c = [0, 1]"
    by auto
  show ?thesis
    using setGlobalVolume_effective [of "1 / 2" uiOps quietScene None] m c pl by simp
qed

section \<open>Sound manager: interrupt eviction\<close>












section \<open>Sound manager: the settings round trip\<close>

subsection \<open>Unique names and the global volume\<close>

lemma Clamp_range: "0 \<le> Clamp v 0 1 \<and> Clamp v 0 1 \<le> 1"
  by (simp add: Clamp_def)

lemma Clamp_id: "0 \<le> v \<Longrightarrow> v \<le> 1 \<Longrightarrow> Clamp v 0 1 = v"
  by (simp add: Clamp_def)

lemma gv_removeFromCategory [simp]: "globalVolume (removeFromCategory h c sm) = globalVolume sm"
  by (simp add: removeFromCategory_def)

lemma gv_stopSound [simp]: "globalVolume (stopSound h sm) = globalVolume sm"
  by (simp add: stopSound_def Let_def split: option.splits)

lemma gv_soundCompleted [simp]: "globalVolume (soundCompleted h sm) = globalVolume sm"
  by (simp add: soundCompleted_def Let_def split: option.splits)

lemma gv_fold_stopSound [simp]: "globalVolume (fold stopSound hs sm) = globalVolume sm"
  by (induction hs arbitrary: sm) simp_all

lemma gv_mapCategory [simp]: "globalVolume (mapCategory nm f sm) = globalVolume sm"
  by (simp add: mapCategory_def)

lemma gv_fadeOutSound [simp]: "globalVolume (fadeOutSound h d cb sm) = globalVolume sm"
  by (simp add: fadeOutSound_def)

lemma gv_runFadeCallback [simp]: "globalVolume (runFadeCallback cb sm) = globalVolume sm"
  by (cases cb) (simp_all add: runFadeCallback_def)

lemma gv_stopBGM [simp]: "globalVolume (stopBGM sm) = globalVolume sm"
  by (simp add: stopBGM_def Let_def split: option.splits)

lemma gv_tweenCompleted [simp]: "globalVolume (tweenCompleted i sm) = globalVolume sm"
  by (simp add: tweenCompleted_def Let_def split: TweenKind.splits)

lemma gv_stopCategory [simp]: "globalVolume (stopCategory nm sm) = globalVolume sm"
  by (simp add: stopCategory_def split: option.splits)

lemma gv_clearFadeTweens [simp]: "globalVolume (clearFadeTweens sm) = globalVolume sm"
  by (simp add: clearFadeTweens_def)

lemma gv_stopAll [simp]: "globalVolume (stopAll sm) = globalVolume sm"
  by (simp add: stopAll_def hostStopAll_def)

lemma gv_setCategoryVolume [simp]: "globalVolume (setCategoryVolume nm v sm) = globalVolume sm"
  by (simp add: setCategoryVolume_def Let_def split: option.splits)

lemma gv_setMuted [simp]: "globalVolume (setMuted b sm) = globalVolume sm"
  by (simp add: setMuted_def)

lemma gv_fold_setCategoryVolume [simp]:
  "globalVolume (fold (\<lambda>(cat, v). setCategoryVolume cat v) vs sm) = globalVolume sm"
  by (induction vs arbitrary: sm) (simp_all add: case_prod_beta)

lemma gv_setGlobalVolume [simp]: "globalVolume (setGlobalVolume v sm) = Clamp v 0 1"
  by (simp add: setGlobalVolume_def)

lemma gv_loadSettings [simp]: "globalVolume (loadSettings st sm) = Clamp (sGlobalVolume st) 0 1"
  by (simp add: loadSettings_def)

lemma gv_startSound [simp]: "globalVolume (snd (startSound k e nm cat cfg sm)) = globalVolume sm"
  by (simp add: startSound_def Let_def split: option.splits)

lemma gv_playSound [simp]: "globalVolume (snd (playSound k cfg sm)) = globalVolume sm"
  by (simp add: playSound_def Let_def split: option.splits list.splits)

lemma gv_playBGM [simp]: "globalVolume (playBGM k cfg sm) = globalVolume sm"
proof -
  have "globalVolume (snd (playSound k cfg (stopBGM sm))) = globalVolume sm" by simp
  then show ?thesis
    by (cases "playSound k cfg (stopBGM sm)") (auto simp: playBGM_def split: option.splits)
qed

lemma gv_defineCategory [simp]: "globalVolume (defineCategory nm cfg sm) = globalVolume sm"
  by (simp add: defineCategory_def)

lemma gv_registerSound [simp]: "globalVolume (registerSound k cat p cfg sm) = globalVolume sm"
  by (simp add: registerSound_def Let_def split: option.splits)

lemma gv_dispose [simp]: "globalVolume (dispose sm) = globalVolume sm"
  by (simp add: dispose_def Let_def)

lemma gv_exec:
  "0 \<le> globalVolume sm \<and> globalVolume sm \<le> 1
     \<Longrightarrow> 0 \<le> globalVolume (exec op sm) \<and> globalVolume (exec op sm) \<le> 1"
  by (cases op) (simp_all add: toggleMute_def Clamp_range)

lemma shrinks_names: "shrinks sm' sm \<Longrightarrow> map fst (categories sm') = map fst (categories sm)"
proof -
  have "list_all2 catLe ys xs \<Longrightarrow> map fst ys = map fst xs" for ys xs
    by (induction rule: list_all2_induct) (simp_all add: catLe_def)
  then show "shrinks sm' sm \<Longrightarrow> map fst (categories sm') = map fst (categories sm)"
    by (simp add: shrinks_def)
qed

lemma names_map_entry: "map fst (AList.map_entry k f xs) = map fst xs"
  by (induction xs) auto

lemma names_playSound: "map fst (categories (snd (playSound k cfg sm))) = map fst (categories sm)"
proof -
  have "map fst (categories (snd (startSound k e nm cat cfg sm'))) = map fst (categories sm')"
    for e :: SoundEntry and nm cat sm'
    by (simp add: startSound_categories names_map_entry)
  then show ?thesis
    using shrinks_names [OF shrinks_evict]
    by (simp add: playSound_def Let_def split: option.splits)
qed

lemma names_playBGM: "map fst (categories (playBGM k cfg sm)) = map fst (categories sm)"
proof -
  have "map fst (categories (snd (playSound k cfg (stopBGM sm)))) = map fst (categories sm)"
    by (simp add: names_playSound shrinks_names [OF shrinks_stopBGM])
  then show ?thesis
    by (cases "playSound k cfg (stopBGM sm)") (auto simp: playBGM_def split: option.splits)
qed

lemma names_exec:
  "distinct (map fst (categories sm)) \<Longrightarrow> distinct (map fst (categories (exec op sm)))"
  using shrinks_or_known [of op sm]
  by (auto simp: names_playSound names_playBGM registerSound_categories defineCategory_def
      dispose_def Let_def AList.distinct_update dest: shrinks_names)

lemma settingsSound_run: "settingsSound sm \<Longrightarrow> settingsSound (run ops sm)"
  unfolding run_def
proof (induction ops arbitrary: sm)
  case Nil
  then show ?case by simp
next
  case (Cons op ops)
  from Cons.prems have "settingsSound (exec op sm)"
    using gv_exec [of sm op] names_exec [of sm op] by (simp add: settingsSound_def)
  then show ?case using Cons.IH by simp
qed

lemma settingsSound_new: "settingsSound (newSoundManager sc am)"
  by (simp add: settingsSound_def newSoundManager_def setupDefaultCategories_def
      defineCategory_def)

subsection \<open>What is saved and what loading stores\<close>

lemma saved_volumes:
  "distinct (map fst cats) \<Longrightarrow>
     map_of (fold (\<lambda>(n, cat) acc. assignProperty n (volume cat) acc) cats acc0) n =
       (if n = ''__proto__'' then map_of acc0 n
        else case map_of cats n of Some c \<Rightarrow> Some (volume c) | None \<Rightarrow> map_of acc0 n)"
proof (induction cats arbitrary: acc0)
  case Nil
  then show ?case by simp
next
  case (Cons p ps)
  then have "map_of ps (fst p) = None"
    by (simp add: map_of_eq_None_iff)
  with Cons show ?case
    by (cases p) (auto simp: assignProperty_def update_conv' split: option.splits)
qed

lemma saveSettings_volumes:
  "distinct (map fst (categories sm)) \<Longrightarrow>
     map_of (categoryVolumes (saveSettings sm)) n =
       (if n = ''__proto__'' then None else map_option volume (map_of (categories sm) n))"
  by (simp add: saveSettings_def saved_volumes split: option.splits)

lemma saveSettings_volumes_plain:
  assumes "distinct (map fst (categories sm))" "''__proto__'' \<notin> fst ` set (categories sm)"
  shows "map_of (categoryVolumes (saveSettings sm)) n = map_option volume (map_of (categories sm) n)"
proof -
  from assms(2) have "map_of (categories sm) ''__proto__'' = None"
    by (simp add: map_of_eq_None_iff)
  then show ?thesis by (simp add: saveSettings_volumes [OF assms(1)])
qed

lemma saved_names_distinct:
  "distinct (map fst acc0) \<Longrightarrow>
     distinct (map fst (fold (\<lambda>(n, cat) acc. assignProperty n (volume cat) acc) cats acc0))"
  by (induction cats arbitrary: acc0)
     (simp_all add: case_prod_beta assignProperty_def AList.distinct_update)

lemma saveSettings_names_distinct: "distinct (map fst (categoryVolumes (saveSettings sm)))"
  by (simp add: saveSettings_def saved_names_distinct)

lemma setCategoryVolume_map_of:
  "map_of (categories (setCategoryVolume k v sm)) n =
     (if n = k then map_option (\<lambda>c. c\<lparr>volume := Clamp v 0 1\<rparr>) (map_of (categories sm) k)
      else map_of (categories sm) n)"
  by (auto simp: setCategoryVolume_def Let_def mapCategory_def map_of_map_entry
      split: option.splits)

lemma loaded_volumes:
  "distinct (map fst vs) \<Longrightarrow>
     map_option volume (map_of (categories (fold (\<lambda>(cat, v). setCategoryVolume cat v) vs sm)) n) =
       (case map_of (categories sm) n of
          None \<Rightarrow> None
        | Some c \<Rightarrow> Some (case map_of vs n of None \<Rightarrow> volume c | Some v \<Rightarrow> Clamp v 0 1))"
proof (induction vs arbitrary: sm)
  case Nil
  then show ?case by (simp split: option.splits)
next
  case (Cons p vs)
  obtain k v where p: "p = (k, v)" by (cases p)
  from Cons.prems p have nk: "map_of vs k = None" and d: "distinct (map fst vs)"
    by (simp_all add: map_of_eq_None_iff)
  show ?case
    using Cons.IH [OF d, of "setCategoryVolume k v sm"] nk
    by (auto simp: p setCategoryVolume_map_of split: option.splits)
qed

lemma isMuted_setCategoryVolume [simp]: "isMuted (setCategoryVolume nm v sm) = isMuted sm"
  by (simp add: setCategoryVolume_def Let_def mapCategory_def split: option.splits)

lemma isMuted_fold_setCategoryVolume [simp]:
  "isMuted (fold (\<lambda>(cat, v). setCategoryVolume cat v) vs sm) = isMuted sm"
  by (induction vs arbitrary: sm) (simp_all add: case_prod_beta)

lemma isMuted_loadSettings: "isMuted (loadSettings st sm) = sIsMuted st"
  by (simp add: loadSettings_def setMuted_def)

lemma loadSettings_volumes:
  assumes "distinct (map fst (categoryVolumes st))"
  shows "map_option volume (map_of (categories (loadSettings st sm)) n) =
       (case map_of (categories sm) n of
          None \<Rightarrow> None
        | Some c \<Rightarrow> Some (case map_of (categoryVolumes st) n of
                           None \<Rightarrow> volume c | Some v \<Rightarrow> Clamp v 0 1))"
  unfolding loadSettings_def
  by (simp add: loaded_volumes [OF assms] setMuted_def setGlobalVolume_def)

lemma roundtrip_sound:
  assumes s: "settingsSound s" and t: "settingsSound t"
    and names: "fst ` set (categories t) = fst ` set (categories s)"
    and range: "\<forall>p\<in>set (categories s). 0 \<le> volume (snd p) \<and> volume (snd p) \<le> 1"
    and plain: "''__proto__'' \<notin> fst ` set (categories s)"
  shows "globalVolume (loadSettings (saveSettings s) t) = globalVolume s"
    and "isMuted (loadSettings (saveSettings s) t) = isMuted s"
    and "map_option volume (map_of (categories (loadSettings (saveSettings s) t)) n)
           = map_option volume (map_of (categories s) n)"
    and "map_of (categoryVolumes (saveSettings (loadSettings (saveSettings s) t))) n
           = map_of (categoryVolumes (saveSettings s)) n"
proof -
  let ?r = "loadSettings (saveSettings s) t"
  from s have ds: "distinct (map fst (categories s))"
    and g: "0 \<le> globalVolume s" "globalVolume s \<le> 1"
    by (simp_all add: settingsSound_def)
  from t have dt: "distinct (map fst (categories t))" by (simp add: settingsSound_def)
  show "globalVolume ?r = globalVolume s"
    using g by (simp add: saveSettings_def Clamp_id)
  show "isMuted ?r = isMuted s"
    by (simp add: isMuted_loadSettings saveSettings_def)
  have dom: "map_of (categories t) n = None \<longleftrightarrow> map_of (categories s) n = None"
    using names by (simp add: map_of_eq_None_iff)
  show v: "map_option volume (map_of (categories ?r) n) = map_option volume (map_of (categories s) n)"
  proof (cases "map_of (categories s) n")
    case None
    with dom show ?thesis
      by (simp add: loadSettings_volumes [OF saveSettings_names_distinct])
  next
    case (Some c)
    then have "(n, c) \<in> set (categories s)" by (rule map_of_SomeD)
    with range have "Clamp (volume c) 0 1 = volume c" by (auto simp: Clamp_id)
    moreover from dom Some obtain c' where "map_of (categories t) n = Some c'" by auto
    ultimately show ?thesis
      using Some
      by (simp add: loadSettings_volumes [OF saveSettings_names_distinct]
          saveSettings_volumes_plain [OF ds plain])
  qed
  have nr: "map fst (categories ?r) = map fst (categories t)"
    by (rule shrinks_names [OF shrinks_loadSettings])
  with dt have dr: "distinct (map fst (categories ?r))" by simp
  have "fst ` set (categories ?r) = fst ` set (categories t)"
    using nr by (metis set_map)
  with names plain have pr: "''__proto__'' \<notin> fst ` set (categories ?r)" by simp
  show "map_of (categoryVolumes (saveSettings ?r)) n = map_of (categoryVolumes (saveSettings s)) n"
    by (simp add: saveSettings_volumes_plain [OF dr pr] saveSettings_volumes_plain [OF ds plain] v)
qed

lemmas settings_defs = loudOps_def freshOps_def tunedOps_def protoOps_def protoFreshOps_def
  run_def saveSettings_def assignProperty_def loadSettings_def setCategoryVolume_def
  setGlobalVolume_def setMuted_def setVolumes_def Clamp_def pauseAll_def resumeAll_def

text \<open>
  C5. Loading the saved settings of a registry into a fresh registry with the same
  category names should reproduce every category volume, and saving again should return
  the original settings. In the code a category defined with volume 2 keeps that value
  (\<open>defineCategory\<close> stores it unclamped), \<open>saveSettings\<close> returns 2 for it, the setter
  behind \<open>loadSettings\<close> clamps it, and the settings saved from the fresh registry have
  \<open>loud\<close> at 1.
\<close>

theorem roundtrip_clamps_loud:
  "map fst (categories (run freshOps (newSoundManager quietScene None)))
     = map fst (categories (run loudOps (newSoundManager quietScene None)))
   \<and> map_of (categoryVolumes (saveSettings (run loudOps (newSoundManager quietScene None))))
        ''loud'' = Some 2
   \<and> map_of (categoryVolumes (saveSettings
        (loadSettings (saveSettings (run loudOps (newSoundManager quietScene None)))
           (run freshOps (newSoundManager quietScene None))))) ''loud'' = Some 1"
  by (simp add: settings_defs sound_defs Let_def)

text \<open>
  A category named \<open>__proto__\<close> is not saved at all: its volume 0.5 is missing from the
  saved settings, and the fresh registry keeps its own volume 1 for it after loading.
\<close>

lemma roundtrip_drops_proto:
  "map fst (categories (run protoFreshOps (newSoundManager quietScene None)))
     = map fst (categories (run protoOps (newSoundManager quietScene None)))
   \<and> map_option volume (map_of (categories (run protoOps (newSoundManager quietScene None)))
        ''__proto__'') = Some (1 / 2)
   \<and> map_of (categoryVolumes (saveSettings (run protoOps (newSoundManager quietScene None))))
        ''__proto__'' = None
   \<and> map_option volume (map_of (categories
        (loadSettings (saveSettings (run protoOps (newSoundManager quietScene None)))
           (run protoFreshOps (newSoundManager quietScene None)))) ''__proto__'') = Some 1"
  by (simp add: settings_defs sound_defs Let_def)

text \<open>
  Where the round trip holds: for every reachable registry state whose category volumes
  lie in \<open>[0, 1]\<close> and that has no category named \<open>__proto__\<close>, loading its saved
  settings into a reachable registry with the same set of category names reproduces the
  global volume, the mute flag and every category's volume, and the settings saved from
  there hold the same entries as the original ones.
\<close>

lemma settings_roundtrip_in_range:
  assumes "s = run ops (newSoundManager sc am)"
    and "t = run ops' (newSoundManager sc' am')"
    and "fst ` set (categories t) = fst ` set (categories s)"
    and "\<forall>p\<in>set (categories s). 0 \<le> volume (snd p) \<and> volume (snd p) \<le> 1"
    and "''__proto__'' \<notin> fst ` set (categories s)"
  shows "globalVolume (loadSettings (saveSettings s) t) = globalVolume s
    \<and> isMuted (loadSettings (saveSettings s) t) = isMuted s
    \<and> (\<forall>n. map_option volume (map_of (categories (loadSettings (saveSettings s) t)) n)
             = map_option volume (map_of (categories s) n))
    \<and> sGlobalVolume (saveSettings (loadSettings (saveSettings s) t)) = sGlobalVolume (saveSettings s)
    \<and> sIsMuted (saveSettings (loadSettings (saveSettings s) t)) = sIsMuted (saveSettings s)
    \<and> map_of (categoryVolumes (saveSettings (loadSettings (saveSettings s) t)))
         = map_of (categoryVolumes (saveSettings s))"
proof -
  have s: "settingsSound s"
    unfolding assms(1) by (rule settingsSound_run [OF settingsSound_new])
  have t: "settingsSound t"
    unfolding assms(2) by (rule settingsSound_run [OF settingsSound_new])
  note rt = roundtrip_sound [OF s t assms(3,4,5)]
  have "sGlobalVolume (saveSettings (loadSettings (saveSettings s) t)) = sGlobalVolume (saveSettings s)"
    using rt(1) by (simp add: saveSettings_def)
  moreover have "sIsMuted (saveSettings (loadSettings (saveSettings s) t)) = sIsMuted (saveSettings s)"
    using rt(2) by (simp add: saveSettings_def)
  moreover have "map_of (categoryVolumes (saveSettings (loadSettings (saveSettings s) t)))
         = map_of (categoryVolumes (saveSettings s))"
    using rt(4) by (rule ext)
  ultimately show ?thesis using rt(1,2,3) by blast
qed

text \<open>
  The round trip at work: a registry with global volume 0.5, \<open>ui\<close> at 0.25 and muted,
  loaded into a new registry.
\<close>

lemma settings_roundtrip_in_range_example:
  "globalVolume (loadSettings (saveSettings (run tunedOps (newSoundManager quietScene None)))
      (run [] (newSoundManager quietScene None))) = 1 / 2
   \<and> isMuted (loadSettings (saveSettings (run tunedOps (newSoundManager quietScene None)))
      (run [] (newSoundManager quietScene None)))
   \<and> map_option volume (map_of (categories
        (loadSettings (saveSettings (run tunedOps (newSoundManager quietScene None)))
           (run [] (newSoundManager quietScene None)))) ''ui'') = Some (1 / 4)"
proof -
  have n: "fst ` set (categories (run [] (newSoundManager quietScene None)))
        = fst ` set (categories (run tunedOps (newSoundManager quietScene None)))"
    by (simp add: settings_defs sound_defs Let_def)
  have r: "\<forall>p\<in>set (categories (run tunedOps (newSoundManager quietScene None))).
        0 \<le> volume (snd p) \<and> volume (snd p) \<le> 1"
    by (simp add: settings_defs sound_defs Let_def)
  have q: "''__proto__'' \<notin> fst ` set (categories (run tunedOps (newSoundManager quietScene None)))"
    by (simp add: settings_defs sound_defs Let_def)
  have v: "globalVolume (run tunedOps (newSoundManager quietScene None)) = 1 / 2"
    "isMuted (run tunedOps (newSoundManager quietScene None))"
    "map_option volume (map_of (categories (run tunedOps (newSoundManager quietScene None))) ''ui'')
       = Some (1 / 4)"
    by (simp_all add: settings_defs sound_defs Let_def)
  show ?thesis
    using settings_roundtrip_in_range [OF refl refl n r q] v by simp
qed

end
